theory Spec2Isabelle
  imports Complex_Main
begin

text \<open>
  A model of the calculator nmri (src/nmri.c): the tokenizer, the conversion to postfix,
  the postfix evaluator, the variable store, the assignment handler, and the part of
  \<open>main\<close> that decides what to do with a line. Every function keeps the name and the
  order of checks of its source. What the source prints on stderr before it returns its
  error value is the error kind of the model; printing results, the history, the log
  file and line editing are left out.
\<close>

section \<open>The values of type double\<close>

text \<open>
  nmri.c computes with C doubles and signals every error by returning NAN, so the special
  values are part of the program's control flow. A double is either a finite number, one
  of the two infinities, or NaN. A finite double is identified with the real number it
  denotes: operations on finite values are exact here (rounding, overflow to infinity and
  the sign of zero are outside this model), while the results on infinities and NaN follow
  IEEE 754 and Annex F of the C standard.
\<close>

datatype double = Fin real | PInf | MInf | NaN

fun isnan :: "double \<Rightarrow> bool" where
  "isnan NaN = True"
| "isnan _ = False"

fun dneg :: "double \<Rightarrow> double" where
  "dneg (Fin x) = Fin (- x)"
| "dneg PInf = MInf"
| "dneg MInf = PInf"
| "dneg NaN = NaN"

fun dadd :: "double \<Rightarrow> double \<Rightarrow> double" where
  "dadd NaN _ = NaN"
| "dadd _ NaN = NaN"
| "dadd (Fin x) (Fin y) = Fin (x + y)"
| "dadd PInf MInf = NaN"
| "dadd MInf PInf = NaN"
| "dadd PInf _ = PInf"
| "dadd _ PInf = PInf"
| "dadd MInf _ = MInf"
| "dadd _ MInf = MInf"

definition dsub :: "double \<Rightarrow> double \<Rightarrow> double" where
  "dsub a b = dadd a (dneg b)"

fun dmul :: "double \<Rightarrow> double \<Rightarrow> double" where
  "dmul NaN _ = NaN"
| "dmul _ NaN = NaN"
| "dmul (Fin x) (Fin y) = Fin (x * y)"
| "dmul (Fin x) PInf = (if x = 0 then NaN else if 0 < x then PInf else MInf)"
| "dmul (Fin x) MInf = (if x = 0 then NaN else if 0 < x then MInf else PInf)"
| "dmul PInf (Fin y) = (if y = 0 then NaN else if 0 < y then PInf else MInf)"
| "dmul MInf (Fin y) = (if y = 0 then NaN else if 0 < y then MInf else PInf)"
| "dmul PInf PInf = PInf"
| "dmul PInf MInf = MInf"
| "dmul MInf PInf = MInf"
| "dmul MInf MInf = PInf"

fun ddiv :: "double \<Rightarrow> double \<Rightarrow> double" where
  "ddiv NaN _ = NaN"
| "ddiv _ NaN = NaN"
| "ddiv (Fin x) (Fin y) =
     (if y = 0 then (if x = 0 then NaN else if 0 < x then PInf else MInf)
      else Fin (x / y))"
| "ddiv (Fin x) PInf = Fin 0"
| "ddiv (Fin x) MInf = Fin 0"
| "ddiv PInf (Fin y) = (if 0 \<le> y then PInf else MInf)"
| "ddiv MInf (Fin y) = (if 0 \<le> y then MInf else PInf)"
| "ddiv PInf PInf = NaN"
| "ddiv PInf MInf = NaN"
| "ddiv MInf PInf = NaN"
| "ddiv MInf MInf = NaN"

text \<open>The comparisons of C: every comparison with NaN is false.\<close>

fun deq :: "double \<Rightarrow> double \<Rightarrow> bool" where
  "deq NaN _ = False"
| "deq _ NaN = False"
| "deq (Fin x) (Fin y) = (x = y)"
| "deq PInf PInf = True"
| "deq MInf MInf = True"
| "deq _ _ = False"

fun dlt :: "double \<Rightarrow> double \<Rightarrow> bool" where
  "dlt NaN _ = False"
| "dlt _ NaN = False"
| "dlt (Fin x) (Fin y) = (x < y)"
| "dlt _ MInf = False"
| "dlt MInf _ = True"
| "dlt PInf _ = False"
| "dlt _ PInf = True"

definition dle :: "double \<Rightarrow> double \<Rightarrow> bool" where
  "dle a b = (dlt a b \<or> deq a b)"

definition dgt :: "double \<Rightarrow> double \<Rightarrow> bool" where
  "dgt a b = dlt b a"

text \<open>
  The functions of math.h. \<open>c_pow\<close> follows F.10.4.4: the result is 1 when the exponent is
  zero or the base is 1, even for a NaN argument; a negative finite base with a finite
  exponent that is not an integer gives NaN.
\<close>

definition is_integer :: "real \<Rightarrow> bool" where
  "is_integer y = (y = of_int \<lfloor>y\<rfloor>)"

definition is_odd_integer :: "real \<Rightarrow> bool" where
  "is_odd_integer y = (is_integer y \<and> odd \<lfloor>y\<rfloor>)"

definition int_power :: "real \<Rightarrow> int \<Rightarrow> real" where
  "int_power a n = (if 0 \<le> n then a ^ nat n else inverse (a ^ nat (- n)))"

definition c_trunc :: "real \<Rightarrow> int" where
  "c_trunc r = (if 0 \<le> r then \<lfloor>r\<rfloor> else \<lceil>r\<rceil>)"

fun c_pow_cases :: "double \<Rightarrow> double \<Rightarrow> double" where
  "c_pow_cases NaN _ = NaN"
| "c_pow_cases _ NaN = NaN"
| "c_pow_cases (Fin a) (Fin b) =
     (if a = 0 then (if b < 0 then PInf else Fin 0)
      else if is_integer b then Fin (int_power a \<lfloor>b\<rfloor>)
      else if 0 < a then Fin (a powr b)
      else NaN)"
| "c_pow_cases (Fin a) PInf =
     (if a = - 1 then Fin 1 else if \<bar>a\<bar> < 1 then Fin 0 else PInf)"
| "c_pow_cases (Fin a) MInf =
     (if a = - 1 then Fin 1 else if \<bar>a\<bar> < 1 then PInf else Fin 0)"
| "c_pow_cases PInf (Fin b) = (if b < 0 then Fin 0 else PInf)"
| "c_pow_cases PInf PInf = PInf"
| "c_pow_cases PInf MInf = Fin 0"
| "c_pow_cases MInf (Fin b) =
     (if b < 0 then Fin 0 else if is_odd_integer b then MInf else PInf)"
| "c_pow_cases MInf PInf = PInf"
| "c_pow_cases MInf MInf = Fin 0"

definition c_pow :: "double \<Rightarrow> double \<Rightarrow> double" where
  "c_pow x y =
     (if y = Fin 0 then Fin 1 else if x = Fin 1 then Fin 1 else c_pow_cases x y)"

fun c_fmod :: "double \<Rightarrow> double \<Rightarrow> double" where
  "c_fmod NaN _ = NaN"
| "c_fmod _ NaN = NaN"
| "c_fmod PInf _ = NaN"
| "c_fmod MInf _ = NaN"
| "c_fmod (Fin x) PInf = Fin x"
| "c_fmod (Fin x) MInf = Fin x"
| "c_fmod (Fin x) (Fin y) =
     (if y = 0 then NaN else Fin (x - of_int (c_trunc (x / y)) * y))"

text \<open>
  The functions of math.h are those of the reals on finite arguments. \<open>tan\<close> is total in
  HOL, with the value 0 at the odd multiples of \<open>pi / 2\<close>; no C double, a rational, is such a multiple,
  and nothing below depends on the value there.
\<close>

fun c_sin :: "double \<Rightarrow> double" where
  "c_sin (Fin x) = Fin (sin x)"
| "c_sin _ = NaN"

fun c_cos :: "double \<Rightarrow> double" where
  "c_cos (Fin x) = Fin (cos x)"
| "c_cos _ = NaN"

fun c_tan :: "double \<Rightarrow> double" where
  "c_tan (Fin x) = Fin (tan x)"
| "c_tan _ = NaN"

fun c_asin :: "double \<Rightarrow> double" where
  "c_asin (Fin x) = (if - 1 \<le> x \<and> x \<le> 1 then Fin (arcsin x) else NaN)"
| "c_asin _ = NaN"

fun c_acos :: "double \<Rightarrow> double" where
  "c_acos (Fin x) = (if - 1 \<le> x \<and> x \<le> 1 then Fin (arccos x) else NaN)"
| "c_acos _ = NaN"

fun c_atan :: "double \<Rightarrow> double" where
  "c_atan (Fin x) = Fin (arctan x)"
| "c_atan PInf = Fin (pi / 2)"
| "c_atan MInf = Fin (- (pi / 2))"
| "c_atan NaN = NaN"

fun c_log :: "double \<Rightarrow> double" where
  "c_log (Fin x) = (if x = 0 then MInf else if x < 0 then NaN else Fin (ln x))"
| "c_log PInf = PInf"
| "c_log _ = NaN"

fun c_sqrt :: "double \<Rightarrow> double" where
  "c_sqrt (Fin x) = (if x < 0 then NaN else Fin (sqrt x))"
| "c_sqrt PInf = PInf"
| "c_sqrt _ = NaN"

fun c_exp :: "double \<Rightarrow> double" where
  "c_exp (Fin x) = Fin (exp x)"
| "c_exp PInf = PInf"
| "c_exp MInf = Fin 0"
| "c_exp NaN = NaN"

fun c_fabs :: "double \<Rightarrow> double" where
  "c_fabs (Fin x) = Fin \<bar>x\<bar>"
| "c_fabs PInf = PInf"
| "c_fabs MInf = PInf"
| "c_fabs NaN = NaN"

fun c_floor :: "double \<Rightarrow> double" where
  "c_floor (Fin x) = Fin (of_int \<lfloor>x\<rfloor>)"
| "c_floor d = d"

fun c_ceil :: "double \<Rightarrow> double" where
  "c_ceil (Fin x) = Fin (of_int \<lceil>x\<rceil>)"
| "c_ceil d = d"

text \<open>C's round takes halfway cases away from zero.\<close>

fun c_round :: "double \<Rightarrow> double" where
  "c_round (Fin x) =
     Fin (of_int (if 0 \<le> x then \<lfloor>x + 1 / 2\<rfloor> else \<lceil>x - 1 / 2\<rceil>))"
| "c_round d = d"

section \<open>Configuration constants and types of nmri.c\<close>

definition MAX_TOKENS :: nat where
  "MAX_TOKENS = 100"

definition MAX_IDENTIFIER_LEN :: nat where
  "MAX_IDENTIFIER_LEN = 32"

definition MAX_VARIABLES :: nat where
  "MAX_VARIABLES = 100"

definition NMRI_MAX_INPUT :: nat where
  "NMRI_MAX_INPUT = 256"

definition CMD_LINE_EXPR_BUFFER_SIZE :: nat where
  "CMD_LINE_EXPR_BUFFER_SIZE = NMRI_MAX_INPUT * 2"

datatype OperatorType = OP_ADD | OP_SUB | OP_MUL | OP_DIV | OP_POW | OP_MOD

datatype FunctionType =
    FUNC_SIN | FUNC_COS | FUNC_TAN | FUNC_ASIN | FUNC_ACOS | FUNC_ATAN | FUNC_LOG
  | FUNC_SQRT | FUNC_EXP | FUNC_ABS | FUNC_FLOOR | FUNC_CEIL | FUNC_ROUND

text \<open>
  The struct Token is a tag, the flag \<open>is_percentage\<close> and a union. Only a number carries
  the flag; an assignment token carries the name. \<open>TOKEN_VARIABLE\<close> is declared by the
  source and never produced by its tokenizer.
\<close>

datatype Token =
    TOKEN_NUMBER double bool
  | TOKEN_OPERATOR OperatorType
  | TOKEN_FUNCTION FunctionType
  | TOKEN_LPAREN
  | TOKEN_RPAREN
  | TOKEN_VARIABLE string
  | TOKEN_ASSIGNMENT string

record Value =
  num :: double
  is_percentage :: bool

record Variable =
  name :: string
  val :: double

text \<open>
  The globals of the calculator: the array \<open>variables\<close> with its \<open>variable_count\<close> (the
  length of the list), \<open>last_result\<close> and \<open>memory\<close>. Strings are C strings: they hold no
  NUL character.
\<close>

record calc_state =
  variables :: "Variable list"
  last_result :: double
  memory :: double

definition initial_state :: calc_state where
  "initial_state = \<lparr>variables = [], last_result = Fin 0, memory = Fin 0\<rparr>"

text \<open>
  The messages the source prints on stderr before it returns its error value, as error
  kinds.
\<close>

datatype lex_error =
    TooComplex
  | IdentifierTooLong
  | UnknownIdentifier string
  | InvalidNumber
  | InvalidOperator char
  | InvalidChar char

datatype parse_error = OutputOverflow | StackOverflow | MismatchedParen | InternalInvariant

datatype eval_error =
    EvalStackOverflow
  | InsufficientOperands
  | InsufficientArguments
  | DivByZero
  | ModByZero
  | DomainError
  | MalformedExpression

section \<open>The variable store\<close>

fun find_from :: "nat \<Rightarrow> Variable list \<Rightarrow> string \<Rightarrow> nat option" where
  "find_from i [] nm = None"
| "find_from i (v # vs) nm = (if name v = nm then Some i else find_from (Suc i) vs nm)"

definition find_variable :: "calc_state \<Rightarrow> string \<Rightarrow> nat option" where
  "find_variable st nm = find_from 0 (variables st) nm"

text \<open>
  \<open>set_variable\<close> returns the index, or None where the source returns -1, and the store.
  A new name is copied with strncpy, so at most \<open>MAX_IDENTIFIER_LEN - 1\<close> characters of it
  are kept.
\<close>

definition set_variable :: "calc_state \<Rightarrow> string \<Rightarrow> double \<Rightarrow> nat option \<times> calc_state" where
  "set_variable st nm v =
     (if nm = [] then (None, st)
      else case find_variable st nm of
        Some index \<Rightarrow>
          (Some index, st\<lparr>variables := (variables st)[index := (variables st ! index)\<lparr>val := v\<rparr>]\<rparr>)
      | None \<Rightarrow>
          if MAX_VARIABLES \<le> length (variables st) then (None, st)
          else (Some (length (variables st)),
                st\<lparr>variables := variables st @ [\<lparr>name = take (MAX_IDENTIFIER_LEN - 1) nm, val = v\<rparr>]\<rparr>))"

section \<open>Character classes of ctype.h in the C locale\<close>

definition c_isspace :: "char \<Rightarrow> bool" where
  "c_isspace c = (c \<in> set [CHR '' '', CHR 0x09, CHR 0x0A, CHR 0x0B, CHR 0x0C, CHR 0x0D])"

definition c_isdigit :: "char \<Rightarrow> bool" where
  "c_isdigit c = (c \<in> set ''0123456789'')"

definition c_isalpha :: "char \<Rightarrow> bool" where
  "c_isalpha c = (c \<in> set ''abcdefghijklmnopqrstuvwxyzABCDEFGHIJKLMNOPQRSTUVWXYZ'')"

definition c_isalnum :: "char \<Rightarrow> bool" where
  "c_isalnum c = (c_isalpha c \<or> c_isdigit c)"

text \<open>The characters of an identifier after its first: \<open>isalnum(c) || c == '_'\<close>.\<close>

definition ident_char :: "char \<Rightarrow> bool" where
  "ident_char c = (c_isalnum c \<or> c = CHR ''_'')"

definition ident_start :: "char \<Rightarrow> bool" where
  "ident_start c = (c_isalpha c \<or> c = CHR ''_'')"

section \<open>Reading a number: strtod\<close>

text \<open>
  strtod belongs to the C library, so the tokenizer takes it as a parameter: a function
  from the text at \<open>p\<close> to the value read and the number of characters consumed
  (\<open>end - p\<close>). \<open>strtod_decimal\<close> is the instance used to run the calculator on decimal
  literals: digits with an optional fraction and an optional decimal exponent. It reads no
  hexadecimal literal and, its values being exact, neither overflows nor underflows; what
  is stated for every \<open>strtod\<close> takes the function as the parameter \<open>sd\<close>.
\<close>

type_synonym strtod_fn = "string \<Rightarrow> double \<times> nat"

definition digit_val :: "char \<Rightarrow> nat" where
  "digit_val c = of_char c - of_char CHR ''0''"

fun digits_val :: "nat \<Rightarrow> string \<Rightarrow> nat" where
  "digits_val acc [] = acc"
| "digits_val acc (c # cs) = digits_val (acc * 10 + digit_val c) cs"

text \<open>The exponent part: its value and its length, (0, 0) when there is none.\<close>

definition exponent_part :: "string \<Rightarrow> int \<times> nat" where
  "exponent_part s =
     (case s of
        [] \<Rightarrow> (0, 0)
      | e # r \<Rightarrow>
          if e = CHR ''e'' \<or> e = CHR ''E'' then
            (case r of
               [] \<Rightarrow> (0, 0)
             | sg # r' \<Rightarrow>
                 if sg = CHR ''-'' \<or> sg = CHR ''+'' then
                   (let ds = takeWhile c_isdigit r' in
                    if ds = [] then (0, 0)
                    else (if sg = CHR ''-'' then - int (digits_val 0 ds) else int (digits_val 0 ds),
                          2 + length ds))
                 else
                   (let ds = takeWhile c_isdigit r in
                    if ds = [] then (0, 0) else (int (digits_val 0 ds), 1 + length ds)))
          else (0, 0))"

definition strtod_decimal :: strtod_fn where
  "strtod_decimal s =
     (let ip = takeWhile c_isdigit s;
          r1 = dropWhile c_isdigit s;
          dot = (case r1 of [] \<Rightarrow> False | c # _ \<Rightarrow> c = CHR ''.'');
          fp = (if dot then takeWhile c_isdigit (tl r1) else []);
          r2 = (if dot then dropWhile c_isdigit (tl r1) else r1)
      in if ip = [] \<and> fp = [] then (Fin 0, 0)
         else (case exponent_part r2 of
                 (ex, n) \<Rightarrow>
                   (Fin (real (digits_val 0 (ip @ fp)) * int_power 10 (ex - int (length fp))),
                    length ip + (if dot then 1 + length fp else 0) + n)))"

section \<open>The tokenizer\<close>

definition char_to_op :: "char \<Rightarrow> OperatorType option" where
  "char_to_op c =
     (if c = CHR ''+'' then Some OP_ADD
      else if c = CHR ''-'' then Some OP_SUB
      else if c = CHR ''*'' then Some OP_MUL
      else if c = CHR ''/'' then Some OP_DIV
      else if c = CHR ''^'' then Some OP_POW
      else if c = CHR ''%'' then Some OP_MOD
      else None)"

definition function_map :: "(string \<times> FunctionType) list" where
  "function_map =
     [(''sin'', FUNC_SIN), (''cos'', FUNC_COS), (''tan'', FUNC_TAN), (''asin'', FUNC_ASIN),
      (''acos'', FUNC_ACOS), (''atan'', FUNC_ATAN), (''log'', FUNC_LOG), (''ln'', FUNC_LOG),
      (''sqrt'', FUNC_SQRT), (''exp'', FUNC_EXP), (''abs'', FUNC_ABS), (''floor'', FUNC_FLOOR),
      (''ceil'', FUNC_CEIL), (''round'', FUNC_ROUND)]"

text \<open>The chain of strcmp tests on the predefined constants; \<open>ans\<close> reads \<open>last_result\<close>.\<close>

definition constant_value :: "calc_state \<Rightarrow> string \<Rightarrow> double option" where
  "constant_value st identifier =
     (if identifier = ''pi'' then Some (Fin pi)
      else if identifier = ''e'' then Some (Fin (exp 1))
      else if identifier = ''phi'' then Some (Fin ((1 + sqrt 5) / 2))
      else if identifier = ''gamma'' then Some (Fin (5772156649015329 / 10 ^ 16))
      else if identifier = ''c'' then Some (Fin 299792458)
      else if identifier = ''h'' then Some (Fin (662607015 / 10 ^ 42))
      else if identifier = ''G'' then Some (Fin (667430 / 10 ^ 16))
      else if identifier = ''Na'' then Some (Fin (602214076 * 10 ^ 15))
      else if identifier = ''k'' then Some (Fin (1380649 / 10 ^ 29))
      else if identifier = ''inf'' then Some PInf
      else if identifier = ''ans'' then Some (last_result st)
      else None)"

text \<open>
  An identifier that does not start an assignment: a constant, else a function, else a
  variable of the store, else the error. The flag is the new \<open>expecting_operand\<close>.
\<close>

definition resolve_identifier :: "calc_state \<Rightarrow> string \<Rightarrow> lex_error + (Token \<times> bool)" where
  "resolve_identifier st identifier =
     (case constant_value st identifier of
        Some v \<Rightarrow> Inr (TOKEN_NUMBER v False, False)
      | None \<Rightarrow>
          (case map_of function_map identifier of
             Some func \<Rightarrow> Inr (TOKEN_FUNCTION func, True)
           | None \<Rightarrow>
               (case find_variable st identifier of
                  Some var_index \<Rightarrow> Inr (TOKEN_NUMBER (val (variables st ! var_index)) False, False)
                | None \<Rightarrow> Inl (UnknownIdentifier identifier))))"

definition is_operator_char :: "char \<Rightarrow> bool" where
  "is_operator_char c = (c \<in> set ''+-*/^%'')"

lemma dropWhile_shorter: "length xs < n \<Longrightarrow> length (dropWhile P xs) < n"
  using length_dropWhile_le [of P xs] by simp

lemma dropWhile_tl_shorter:
  "length xs < n \<Longrightarrow> length (dropWhile P (dropWhile Q xs)) - Suc 0 < n"
  using dropWhile_shorter [OF dropWhile_shorter, of xs n P Q] by simp

lemma dropWhile_rest_shorter: "dropWhile P p = c # cs \<Longrightarrow> length cs < length p"
  using length_dropWhile_le [of P p] by simp

text \<open>
  The loop of \<open>tokenize\<close>: \<open>p\<close> is the text still to read, \<open>tokens\<close> the tokens written
  so far (\<open>token_count\<close> is their number).
\<close>

function tokenize_loop ::
  "strtod_fn \<Rightarrow> calc_state \<Rightarrow> nat \<Rightarrow> string \<Rightarrow> Token list \<Rightarrow> bool \<Rightarrow> lex_error + Token list"
where
  "tokenize_loop sd st max_tokens p tokens expecting_operand =
     (case dropWhile c_isspace p of
        [] \<Rightarrow> Inr tokens
      | c # cs \<Rightarrow>
          if max_tokens \<le> length tokens then Inl TooComplex
          else if ident_start c then
            (let identifier = takeWhile ident_char (c # cs);
                 p' = dropWhile ident_char cs;
                 next_char = dropWhile c_isspace p'
             in if MAX_IDENTIFIER_LEN \<le> length identifier then Inl IdentifierTooLong
                else if (case next_char of [] \<Rightarrow> False | n # _ \<Rightarrow> n = CHR ''='') then
                  tokenize_loop sd st max_tokens (tl next_char)
                    (tokens @ [TOKEN_ASSIGNMENT (take (MAX_IDENTIFIER_LEN - 1) identifier)]) True
                else
                  (case resolve_identifier st identifier of
                     Inl err \<Rightarrow> Inl err
                   | Inr (tok, expecting) \<Rightarrow>
                       tokenize_loop sd st max_tokens p' (tokens @ [tok]) expecting))
          else if c_isdigit c \<or> (c = CHR ''.'' \<and> (case cs of [] \<Rightarrow> False | d # _ \<Rightarrow> c_isdigit d)) then
            (case sd (c # cs) of
               (number, n) \<Rightarrow>
                 if n = 0 then Inl InvalidNumber
                 else
                   (let end = drop (n - 1) cs;
                        percent = (case end of [] \<Rightarrow> False | e # _ \<Rightarrow> e = CHR ''%'')
                    in tokenize_loop sd st max_tokens (if percent then tl end else end)
                         (tokens @ [TOKEN_NUMBER number percent]) False))
          else if is_operator_char c then
            (case char_to_op c of
               None \<Rightarrow> Inl (InvalidOperator c)
             | Some op \<Rightarrow>
                 if (c = CHR ''-'' \<or> c = CHR ''+'') \<and> expecting_operand then
                   (if max_tokens \<le> length tokens + 1 then Inl TooComplex
                    else tokenize_loop sd st max_tokens cs
                           (tokens @ [TOKEN_NUMBER (Fin 0) False, TOKEN_OPERATOR op]) True)
                 else tokenize_loop sd st max_tokens cs (tokens @ [TOKEN_OPERATOR op]) True)
          else if c = CHR ''('' then
            tokenize_loop sd st max_tokens cs (tokens @ [TOKEN_LPAREN]) True
          else if c = CHR '')'' then
            tokenize_loop sd st max_tokens cs (tokens @ [TOKEN_RPAREN]) False
          else Inl (InvalidChar c))"
  by pat_completeness auto

termination
  by (relation "measure (\<lambda>(sd, st, max_tokens, p, tokens, expecting_operand). length p)")
    (auto dest!: dropWhile_rest_shorter intro: dropWhile_shorter dropWhile_tl_shorter)

definition tokenize :: "strtod_fn \<Rightarrow> calc_state \<Rightarrow> string \<Rightarrow> nat \<Rightarrow> lex_error + Token list" where
  "tokenize sd st input max_tokens = tokenize_loop sd st max_tokens input [] True"

section \<open>Infix to postfix: the shunting yard\<close>

fun precedence :: "OperatorType \<Rightarrow> nat" where
  "precedence OP_ADD = 1"
| "precedence OP_SUB = 1"
| "precedence OP_MUL = 2"
| "precedence OP_DIV = 2"
| "precedence OP_MOD = 2"
| "precedence OP_POW = 3"

fun is_left_associative :: "OperatorType \<Rightarrow> bool" where
  "is_left_associative OP_POW = False"
| "is_left_associative _ = True"

text \<open>
  The operator stack is a list with its top first, so \<open>op_top\<close> is its length minus one
  and \<open>op_top >= MAX_TOKENS - 1\<close> reads \<open>MAX_TOKENS \<le> length op_stack\<close>. The output queue
  grows at its end.
\<close>

definition pops :: "OperatorType \<Rightarrow> Token \<Rightarrow> bool" where
  "pops op stack_top =
     (case stack_top of
        TOKEN_OPERATOR top_op \<Rightarrow>
          (is_left_associative op \<and> precedence op \<le> precedence top_op) \<or>
          (\<not> is_left_associative op \<and> precedence op < precedence top_op)
      | _ \<Rightarrow> False)"

fun pop_operators ::
  "OperatorType \<Rightarrow> nat \<Rightarrow> Token list \<Rightarrow> Token list \<Rightarrow> parse_error + (Token list \<times> Token list)"
where
  "pop_operators op max_output [] output = Inr ([], output)"
| "pop_operators op max_output (stack_top # op_stack) output =
     (if pops op stack_top then
        (if max_output \<le> length output then Inl OutputOverflow
         else pop_operators op max_output op_stack (output @ [stack_top]))
      else Inr (stack_top # op_stack, output))"

fun pop_to_lparen ::
  "nat \<Rightarrow> Token list \<Rightarrow> Token list \<Rightarrow> parse_error + (Token list \<times> Token list)"
where
  "pop_to_lparen max_output [] output = Inr ([], output)"
| "pop_to_lparen max_output (stack_top # op_stack) output =
     (if stack_top = TOKEN_LPAREN then Inr (stack_top # op_stack, output)
      else if max_output \<le> length output then Inl OutputOverflow
      else pop_to_lparen max_output op_stack (output @ [stack_top]))"

definition is_function_token :: "Token \<Rightarrow> bool" where
  "is_function_token t = (case t of TOKEN_FUNCTION _ \<Rightarrow> True | _ \<Rightarrow> False)"

fun shunting_step ::
  "nat \<Rightarrow> Token \<Rightarrow> Token list \<Rightarrow> Token list \<Rightarrow> parse_error + (Token list \<times> Token list)"
where
  "shunting_step max_output (TOKEN_NUMBER v pct) op_stack output =
     (if max_output \<le> length output then Inl OutputOverflow
      else Inr (op_stack, output @ [TOKEN_NUMBER v pct]))"
| "shunting_step max_output (TOKEN_FUNCTION f) op_stack output =
     (if MAX_TOKENS \<le> length op_stack then Inl StackOverflow
      else Inr (TOKEN_FUNCTION f # op_stack, output))"
| "shunting_step max_output (TOKEN_OPERATOR op) op_stack output =
     (case pop_operators op max_output op_stack output of
        Inl err \<Rightarrow> Inl err
      | Inr (op_stack', output') \<Rightarrow>
          if MAX_TOKENS \<le> length op_stack' then Inl StackOverflow
          else Inr (TOKEN_OPERATOR op # op_stack', output'))"
| "shunting_step max_output TOKEN_LPAREN op_stack output =
     (if MAX_TOKENS \<le> length op_stack then Inl StackOverflow
      else Inr (TOKEN_LPAREN # op_stack, output))"
| "shunting_step max_output TOKEN_RPAREN op_stack output =
     (case pop_to_lparen max_output op_stack output of
        Inl err \<Rightarrow> Inl err
      | Inr ([], output') \<Rightarrow> Inl MismatchedParen
      | Inr (lparen # [], output') \<Rightarrow> Inr ([], output')
      | Inr (lparen # stack_top # op_stack', output') \<Rightarrow>
          if is_function_token stack_top then
            (if max_output \<le> length output' then Inl OutputOverflow
             else Inr (op_stack', output' @ [stack_top]))
          else Inr (stack_top # op_stack', output'))"
| "shunting_step max_output (TOKEN_ASSIGNMENT nm) op_stack output = Inl InternalInvariant"
| "shunting_step max_output (TOKEN_VARIABLE nm) op_stack output = Inl InternalInvariant"

fun shunting_loop ::
  "nat \<Rightarrow> Token list \<Rightarrow> Token list \<Rightarrow> Token list \<Rightarrow> parse_error + (Token list \<times> Token list)"
where
  "shunting_loop max_output [] op_stack output = Inr (op_stack, output)"
| "shunting_loop max_output (token # tokens) op_stack output =
     (case shunting_step max_output token op_stack output of
        Inl err \<Rightarrow> Inl err
      | Inr (op_stack', output') \<Rightarrow> shunting_loop max_output tokens op_stack' output')"

fun pop_remaining :: "nat \<Rightarrow> Token list \<Rightarrow> Token list \<Rightarrow> parse_error + Token list" where
  "pop_remaining max_output [] output = Inr output"
| "pop_remaining max_output (stack_top # op_stack) output =
     (if stack_top = TOKEN_LPAREN then Inl MismatchedParen
      else if max_output \<le> length output then Inl OutputOverflow
      else pop_remaining max_output op_stack (output @ [stack_top]))"

definition shunting_yard :: "Token list \<Rightarrow> nat \<Rightarrow> parse_error + Token list" where
  "shunting_yard tokens max_output =
     (case shunting_loop max_output tokens [] [] of
        Inl err \<Rightarrow> Inl err
      | Inr (op_stack, output) \<Rightarrow> pop_remaining max_output op_stack output)"

section \<open>The postfix evaluator\<close>

text \<open>The percentage of a value taken literally: \<open>v.is_percentage ? v.num / 100.0 : v.num\<close>.\<close>

definition literal :: "Value \<Rightarrow> double" where
  "literal v = (if is_percentage v then ddiv (num v) (Fin 100) else num v)"

fun apply_operator :: "OperatorType \<Rightarrow> Value \<Rightarrow> Value \<Rightarrow> eval_error + double" where
  "apply_operator OP_ADD op_a op_b =
     Inr (if is_percentage op_b then dadd (num op_a) (dmul (ddiv (num op_b) (Fin 100)) (num op_a))
          else dadd (num op_a) (num op_b))"
| "apply_operator OP_SUB op_a op_b =
     Inr (if is_percentage op_b then dsub (num op_a) (dmul (ddiv (num op_b) (Fin 100)) (num op_a))
          else dsub (num op_a) (num op_b))"
| "apply_operator OP_MUL op_a op_b = Inr (dmul (literal op_a) (literal op_b))"
| "apply_operator OP_DIV op_a op_b =
     (if deq (literal op_b) (Fin 0) then Inl DivByZero
      else Inr (ddiv (literal op_a) (literal op_b)))"
| "apply_operator OP_POW op_a op_b = Inr (c_pow (num op_a) (num op_b))"
| "apply_operator OP_MOD op_a op_b =
     (if deq (num op_b) (Fin 0) then Inl ModByZero
      else Inr (c_fmod (num op_a) (num op_b)))"

fun apply_function :: "FunctionType \<Rightarrow> double \<Rightarrow> eval_error + double" where
  "apply_function FUNC_SIN arg_val = Inr (c_sin arg_val)"
| "apply_function FUNC_COS arg_val = Inr (c_cos arg_val)"
| "apply_function FUNC_TAN arg_val = Inr (c_tan arg_val)"
| "apply_function FUNC_ASIN arg_val =
     (if dlt arg_val (Fin (- 1)) \<or> dgt arg_val (Fin 1) then Inl DomainError
      else Inr (c_asin arg_val))"
| "apply_function FUNC_ACOS arg_val =
     (if dlt arg_val (Fin (- 1)) \<or> dgt arg_val (Fin 1) then Inl DomainError
      else Inr (c_acos arg_val))"
| "apply_function FUNC_ATAN arg_val = Inr (c_atan arg_val)"
| "apply_function FUNC_LOG arg_val =
     (if dle arg_val (Fin 0) then Inl DomainError else Inr (c_log arg_val))"
| "apply_function FUNC_SQRT arg_val =
     (if dlt arg_val (Fin 0) then Inl DomainError else Inr (c_sqrt arg_val))"
| "apply_function FUNC_EXP arg_val = Inr (c_exp arg_val)"
| "apply_function FUNC_ABS arg_val = Inr (c_fabs arg_val)"
| "apply_function FUNC_FLOOR arg_val = Inr (c_floor arg_val)"
| "apply_function FUNC_CEIL arg_val = Inr (c_ceil arg_val)"
| "apply_function FUNC_ROUND arg_val = Inr (c_round arg_val)"

text \<open>
  One round of the loop of \<open>evaluate_postfix\<close>. The stack is a list with its top first:
  \<open>top < 1\<close> reads "fewer than two values" and \<open>top >= MAX_TOKENS - 1\<close> reads
  \<open>MAX_TOKENS \<le> length stack\<close>. A token that is neither a number, an operator nor a
  function is passed over.
\<close>

fun eval_step :: "Token \<Rightarrow> Value list \<Rightarrow> eval_error + Value list" where
  "eval_step (TOKEN_NUMBER v pct) stack =
     (if MAX_TOKENS \<le> length stack then Inl EvalStackOverflow
      else Inr (\<lparr>num = v, is_percentage = pct\<rparr> # stack))"
| "eval_step (TOKEN_OPERATOR op) stack =
     (case stack of
        op_b # op_a # stack' \<Rightarrow>
          (case apply_operator op op_a op_b of
             Inl err \<Rightarrow> Inl err
           | Inr result \<Rightarrow>
               if MAX_TOKENS \<le> length stack' then Inl EvalStackOverflow
               else Inr (\<lparr>num = result, is_percentage = False\<rparr> # stack'))
      | _ \<Rightarrow> Inl InsufficientOperands)"
| "eval_step (TOKEN_FUNCTION f) stack =
     (case stack of
        [] \<Rightarrow> Inl InsufficientArguments
      | arg # stack' \<Rightarrow>
          (case apply_function f (literal arg) of
             Inl err \<Rightarrow> Inl err
           | Inr result \<Rightarrow>
               if MAX_TOKENS \<le> length stack' then Inl EvalStackOverflow
               else Inr (\<lparr>num = result, is_percentage = False\<rparr> # stack')))"
| "eval_step _ stack = Inr stack"

fun eval_loop :: "Token list \<Rightarrow> Value list \<Rightarrow> eval_error + Value list" where
  "eval_loop [] stack = Inr stack"
| "eval_loop (token # postfix) stack =
     (case eval_step token stack of
        Inl err \<Rightarrow> Inl err
      | Inr stack' \<Rightarrow> eval_loop postfix stack')"

text \<open>
  \<open>evaluate_postfix\<close> with the kind of its error; \<open>returned\<close> is the double the C
  function returns, NAN after every error message.
\<close>

definition evaluate_postfix :: "Token list \<Rightarrow> eval_error + double" where
  "evaluate_postfix postfix =
     (case eval_loop postfix [] of
        Inl err \<Rightarrow> Inl err
      | Inr [final_val] \<Rightarrow> Inr (literal final_val)
      | Inr _ \<Rightarrow> Inl MalformedExpression)"

definition returned :: "'e + double \<Rightarrow> double" where
  "returned r = (case r of Inl err \<Rightarrow> NaN | Inr result \<Rightarrow> result)"

section \<open>Evaluation cycles\<close>

text \<open>
  What a cycle reports: the error kinds of the three stages, an expression without
  tokens, and a result that \<open>set_variable\<close> refused to store.
\<close>

datatype error =
    LexError lex_error
  | ParseError parse_error
  | EvalError eval_error
  | EmptyExpression
  | VariableStoreFull

text \<open>
  Both functions return the double of the source through \<open>returned\<close>: NAN for every
  error, else \<open>result\<close>, which is NaN itself when the arithmetic produced one. The second
  component is the state of the globals afterwards. Writing to the log file is left out.
\<close>

definition handle_assignment ::
  "strtod_fn \<Rightarrow> calc_state \<Rightarrow> string \<Rightarrow> string \<Rightarrow> (error + double) \<times> calc_state"
where
  "handle_assignment sd st var_name expression =
     (case tokenize sd st expression MAX_TOKENS of
        Inl err \<Rightarrow> (Inl (LexError err), st)
      | Inr tokens \<Rightarrow>
          if tokens = [] then (Inl EmptyExpression, st)
          else
            (case shunting_yard tokens MAX_TOKENS of
               Inl err \<Rightarrow> (Inl (ParseError err), st)
             | Inr postfix \<Rightarrow>
                 (case evaluate_postfix postfix of
                    Inl err \<Rightarrow> (Inl (EvalError err), st)
                  | Inr result \<Rightarrow>
                      if isnan result then (Inr result, st)
                      else
                        (case set_variable st var_name result of
                           (None, st') \<Rightarrow> (Inl VariableStoreFull, st')
                         | (Some index, st') \<Rightarrow>
                             (Inr result,
                              snd (set_variable (st'\<lparr>last_result := result\<rparr>) ''ans'' result))))))"

definition evaluate_expression ::
  "strtod_fn \<Rightarrow> calc_state \<Rightarrow> string \<Rightarrow> (error + double) \<times> calc_state"
where
  "evaluate_expression sd st input =
     (case tokenize sd st input MAX_TOKENS of
        Inl err \<Rightarrow> (Inl (LexError err), st)
      | Inr tokens \<Rightarrow>
          if tokens = [] then (Inl EmptyExpression, st)
          else
            (case shunting_yard tokens MAX_TOKENS of
               Inl err \<Rightarrow> (Inl (ParseError err), st)
             | Inr postfix \<Rightarrow>
                 (case evaluate_postfix postfix of
                    Inl err \<Rightarrow> (Inl (EvalError err), st)
                  | Inr result \<Rightarrow>
                      if isnan result then (Inr result, st)
                      else
                        (Inr result,
                         snd (set_variable (st\<lparr>last_result := result\<rparr>) ''ans'' result)))))"

text \<open>The value the store holds for a name, if it holds one; \<open>ans\<close> in particular.\<close>

definition variable_value :: "calc_state \<Rightarrow> string \<Rightarrow> double option" where
  "variable_value st nm = map_option (\<lambda>i. val (variables st ! i)) (find_variable st nm)"


text \<open>
  \<open>main\<close> stores \<open>ans\<close> before it reads any input and no function removes a variable,
  so the store of the running calculator always holds \<open>ans\<close>.
\<close>

definition ans_defined :: "calc_state \<Rightarrow> bool" where
  "ans_defined st = (find_variable st ''ans'' \<noteq> None)"

section \<open>Commands\<close>

text \<open>
  \<open>process_command\<close> returns 1 for a command it handled, -1 for exit and 0 for a line
  that is no command. Printing, the history and the log are left out; the commands that
  change the calculator state change it here.
\<close>

definition trim :: "string \<Rightarrow> string" where
  "trim input =
     rev (dropWhile c_isspace (rev (take (NMRI_MAX_INPUT - 1) (dropWhile c_isspace input))))"

definition store_command :: "calc_state \<Rightarrow> string \<Rightarrow> calc_state" where
  "store_command st arg =
     (let var_name = dropWhile c_isspace arg;
          word = takeWhile (\<lambda>c. \<not> c_isspace c) var_name;
          name_buf = take (MAX_IDENTIFIER_LEN - 1) word
      in if var_name = [] then st
         else if \<not> ident_start (hd var_name) then st
         else if \<not> list_all ident_char name_buf then st
         else if MAX_IDENTIFIER_LEN - 1 < length word then st
         else snd (set_variable st name_buf (last_result st)))"

definition process_command :: "calc_state \<Rightarrow> string \<Rightarrow> int \<times> calc_state" where
  "process_command st input =
     (let trimmed_input = trim input
      in if trimmed_input = ''help'' then (1, st)
         else if trimmed_input = ''exit'' \<or> trimmed_input = ''quit'' then (- 1, st)
         else if trimmed_input = ''clear'' \<or> trimmed_input = ''cls'' then (1, st)
         else if trimmed_input = ''history'' then (1, st)
         else if trimmed_input = ''variables'' \<or> trimmed_input = ''vars'' then (1, st)
         else if trimmed_input = ''memory'' \<or> trimmed_input = ''mem'' then (1, st)
         else if trimmed_input = ''m+'' then
           (1, st\<lparr>memory := dadd (memory st) (last_result st)\<rparr>)
         else if trimmed_input = ''m-'' then
           (1, st\<lparr>memory := dsub (memory st) (last_result st)\<rparr>)
         else if trimmed_input = ''mr'' then
           (1, snd (set_variable (st\<lparr>last_result := memory st\<rparr>) ''ans'' (memory st)))
         else if trimmed_input = ''mc'' then (1, st\<lparr>memory := Fin 0\<rparr>)
         else if take 6 trimmed_input = ''store '' then (1, store_command st (drop 6 trimmed_input))
         else if take 4 trimmed_input = ''log '' then (1, st)
         else (0, st))"

section \<open>The interactive loop and the command line\<close>

text \<open>\<open>strchr\<close> and \<open>strpbrk\<close> as the offset of the character found.\<close>

fun first_index :: "(char \<Rightarrow> bool) \<Rightarrow> string \<Rightarrow> nat option" where
  "first_index P [] = None"
| "first_index P (c # cs) = (if P c then Some 0 else map_option Suc (first_index P cs))"

definition strchr :: "string \<Rightarrow> char \<Rightarrow> nat option" where
  "strchr s c = first_index (\<lambda>x. x = c) s"

definition strpbrk :: "string \<Rightarrow> string \<Rightarrow> nat option" where
  "strpbrk s accept = first_index (\<lambda>x. x \<in> set accept) s"

text \<open>The names that the loop of \<open>main\<close> refuses as the target of an assignment.\<close>

definition reserved_words :: "string list" where
  "reserved_words = [''help'', ''exit'', ''pi'', ''e'', ''sin'']"

text \<open>
  The test of \<open>main\<close> for an assignment, on a line \<open>start\<close> without leading whitespace
  that is no command: no assignment, a name of invalid length, a reserved or otherwise
  invalid name, or the name and the expression passed to \<open>handle_assignment\<close>.
\<close>

datatype assignment_check =
    NotAssignment
  | InvalidNameLength
  | ReservedName string
  | InvalidName string
  | AssignTo string string

definition valid_name :: "string \<Rightarrow> bool" where
  "valid_name var_name = (ident_start (hd var_name) \<and> list_all ident_char (tl var_name))"

definition check_assignment :: "string \<Rightarrow> assignment_check" where
  "check_assignment start =
     (case strchr start CHR ''='' of
        None \<Rightarrow> NotAssignment
      | Some equals_pos \<Rightarrow>
          if equals_pos = 0 then NotAssignment
          else if (case strpbrk start ''+-*/^%'' of None \<Rightarrow> False | Some first_op \<Rightarrow> first_op \<le> equals_pos)
          then NotAssignment
          else
            (let var_name = rev (dropWhile c_isspace (rev (take equals_pos start)));
                 name_len = length var_name
             in if 0 < name_len \<and> name_len < MAX_IDENTIFIER_LEN then
                  (if valid_name var_name then
                     (if var_name \<in> set reserved_words then ReservedName var_name
                      else AssignTo var_name (drop (Suc equals_pos) start))
                   else InvalidName var_name)
                else InvalidNameLength))"

text \<open>One round of the loop of \<open>main\<close> in interactive mode, on the line read.\<close>

datatype line_result =
    EmptyLine
  | CommandHandled
  | ExitRequested
  | Assignment string "error + double"
  | AssignmentRefused assignment_check
  | Expression "error + double"

definition main_line :: "strtod_fn \<Rightarrow> calc_state \<Rightarrow> string \<Rightarrow> line_result \<times> calc_state" where
  "main_line sd st input =
     (let start = dropWhile c_isspace input
      in if start = [] then (EmptyLine, st)
         else
           (case process_command st start of
              (cmd_result, st') \<Rightarrow>
                if cmd_result = 1 then (CommandHandled, st')
                else if cmd_result = - 1 then (ExitRequested, st')
                else
                  (case check_assignment start of
                     NotAssignment \<Rightarrow>
                       (case evaluate_expression sd st' start of (r, st'') \<Rightarrow> (Expression r, st''))
                   | AssignTo var_name expr_start \<Rightarrow>
                       (case handle_assignment sd st' var_name expr_start of
                          (r, st'') \<Rightarrow> (Assignment var_name r, st''))
                   | refused \<Rightarrow> (AssignmentRefused refused, st'))))"

text \<open>
  Command-line mode, which \<open>main\<close> enters when it has at least one argument after the
  program name: it stores \<open>ans = 0\<close>, joins the arguments with single spaces in a buffer
  of \<open>CMD_LINE_EXPR_BUFFER_SIZE\<close> bytes, evaluates the text once and returns the exit
  code.
\<close>

fun join_arguments :: "string \<Rightarrow> string list \<Rightarrow> string option" where
  "join_arguments expression_buffer [] = Some expression_buffer"
| "join_arguments expression_buffer (arg # args) =
     (if CMD_LINE_EXPR_BUFFER_SIZE
           \<le> length expression_buffer + length arg + (if 0 < length expression_buffer then 1 else 0)
      then None
      else join_arguments
             (expression_buffer @ (if 0 < length expression_buffer then '' '' else []) @ arg) args)"

definition main_command_line :: "strtod_fn \<Rightarrow> string list \<Rightarrow> int \<times> calc_state" where
  "main_command_line sd args =
     (let st = snd (set_variable initial_state ''ans'' (Fin 0))
      in case join_arguments [] args of
           None \<Rightarrow> (1, st)
         | Some expression_buffer \<Rightarrow>
             (case evaluate_expression sd st expression_buffer of
                (r, st') \<Rightarrow> (if isnan (returned r) then 1 else 0, st')))"

text \<open>Whether a round of the loop passed the line to \<open>handle_assignment\<close>.\<close>

definition is_assignment :: "line_result \<Rightarrow> bool" where
  "is_assignment r = (case r of Assignment var_name result \<Rightarrow> True | _ \<Rightarrow> False)"

section \<open>The specification's test for an assignment\<close>

text \<open>
  The specification describes the test for an assignment in its own words: the line has
  \<open>=\<close> strictly before any of \<open>+ - * / ^ %\<close> and not as its first character, and the
  identifier on its left is non-empty, syntactically valid and not reserved, where the
  names of functions, constants and commands are reserved. The definitions below follow
  those words, to be compared with \<open>check_assignment\<close>. The three lists name what the
  source knows: the entries of \<open>function_map\<close>, the constants of the tokenizer and the
  verbs of \<open>process_command\<close>.
\<close>

definition function_names :: "string list" where
  "function_names = map fst function_map"

definition constant_names :: "string list" where
  "constant_names =
     [''pi'', ''e'', ''phi'', ''gamma'', ''c'', ''h'', ''G'', ''Na'', ''k'', ''inf'', ''ans'']"

definition command_names :: "string list" where
  "command_names =
     [''help'', ''exit'', ''quit'', ''clear'', ''cls'', ''history'', ''variables'', ''vars'',
      ''memory'', ''mem'', ''m+'', ''m-'', ''mr'', ''mc'', ''store'', ''log'']"

definition spec_reserved_names :: "string list" where
  "spec_reserved_names = function_names @ constant_names @ command_names"

definition equals_before_operators :: "string \<Rightarrow> bool" where
  "equals_before_operators start =
     (case strchr start CHR ''='' of
        None \<Rightarrow> False
      | Some equals_pos \<Rightarrow>
          0 < equals_pos \<and>
          (case strpbrk start ''+-*/^%'' of None \<Rightarrow> True | Some first_op \<Rightarrow> equals_pos < first_op))"

text \<open>The text on the left of the first \<open>=\<close>, without the whitespace before the \<open>=\<close>.\<close>

definition assignment_name :: "string \<Rightarrow> string" where
  "assignment_name start =
     (case strchr start CHR ''='' of
        None \<Rightarrow> []
      | Some equals_pos \<Rightarrow> rev (dropWhile c_isspace (rev (take equals_pos start))))"

definition spec_assignment_line :: "string \<Rightarrow> bool" where
  "spec_assignment_line start =
     (equals_before_operators start \<and> assignment_name start \<noteq> []
      \<and> valid_name (assignment_name start)
      \<and> assignment_name start \<notin> set spec_reserved_names)"

section \<open>Expressions and their two notations\<close>

text \<open>
  What the conversion is measured against. An expression is a number, an operator applied
  to two expressions, a function applied to one, or an expression in parentheses.
  \<open>postfix_of\<close> writes it in postfix: the operands of an operator before the operator,
  in their order. \<open>infix_of\<close> writes it in infix, with parentheses around an operand only
  where precedence and associativity ask for them: \<open>applied_first p q\<close> says that of two
  neighbouring operators \<open>p\<close> (on the left) and \<open>q\<close> (on the right) the left one is applied
  first, which is the case when it binds tighter, or as tightly with \<open>q\<close> left-associative.
  A left operand stands bare when its operator is applied first, a right operand when
  its operator is; the trees of \<open>1-2*3-4\<close>, \<open>2^3^2\<close> and \<open>(2+3)*4\<close> are written exactly so.
\<close>

datatype expr =
    Number double bool
  | Binary OperatorType expr expr
  | Call FunctionType expr
  | Parenthesised expr

fun postfix_of :: "expr \<Rightarrow> Token list" where
  "postfix_of (Number v pct) = [TOKEN_NUMBER v pct]"
| "postfix_of (Binary op l r) = postfix_of l @ postfix_of r @ [TOKEN_OPERATOR op]"
| "postfix_of (Call f e) = postfix_of e @ [TOKEN_FUNCTION f]"
| "postfix_of (Parenthesised e) = postfix_of e"

definition applied_first :: "OperatorType \<Rightarrow> OperatorType \<Rightarrow> bool" where
  "applied_first first_op second_op =
     (precedence second_op < precedence first_op
      \<or> (precedence first_op = precedence second_op \<and> is_left_associative second_op))"

definition left_bare :: "OperatorType \<Rightarrow> expr \<Rightarrow> bool" where
  "left_bare op l = (case l of Binary left_op _ _ \<Rightarrow> applied_first left_op op | _ \<Rightarrow> True)"

definition right_bare :: "OperatorType \<Rightarrow> expr \<Rightarrow> bool" where
  "right_bare op r = (case r of Binary right_op _ _ \<Rightarrow> \<not> applied_first op right_op | _ \<Rightarrow> True)"

definition operand :: "bool \<Rightarrow> Token list \<Rightarrow> Token list" where
  "operand bare tokens = (if bare then tokens else TOKEN_LPAREN # tokens @ [TOKEN_RPAREN])"

fun infix_of :: "expr \<Rightarrow> Token list" where
  "infix_of (Number v pct) = [TOKEN_NUMBER v pct]"
| "infix_of (Binary op l r) =
     operand (left_bare op l) (infix_of l) @ TOKEN_OPERATOR op # operand (right_bare op r) (infix_of r)"
| "infix_of (Call f e) = TOKEN_FUNCTION f # TOKEN_LPAREN # infix_of e @ [TOKEN_RPAREN]"
| "infix_of (Parenthesised e) = TOKEN_LPAREN # infix_of e @ [TOKEN_RPAREN]"

text \<open>
  Where \<open>shunting_yard\<close> stands after the tokens of an expression: the operators of its
  right spine are still on the stack (\<open>pending\<close>, the last one read first) and the rest
  of its postfix form is in the output (\<open>emitted\<close>). \<open>guards\<close> is what the stack below
  must satisfy for that: its top is no function, and the operator of the expression does
  not pop it.
\<close>

fun pending :: "expr \<Rightarrow> OperatorType list" where
  "pending (Binary op l r) = (if right_bare op r then pending r else []) @ [op]"
| "pending _ = []"

fun emitted :: "expr \<Rightarrow> Token list" where
  "emitted (Binary op l r) = postfix_of l @ (if right_bare op r then emitted r else postfix_of r)"
| "emitted e = postfix_of e"

definition plain_top :: "Token list \<Rightarrow> bool" where
  "plain_top op_stack = (case op_stack of [] \<Rightarrow> True | t # _ \<Rightarrow> \<not> is_function_token t)"

definition keeps_top :: "OperatorType \<Rightarrow> Token list \<Rightarrow> bool" where
  "keeps_top op op_stack = (case op_stack of [] \<Rightarrow> True | t # _ \<Rightarrow> \<not> pops op t)"

definition guards :: "Token list \<Rightarrow> expr \<Rightarrow> bool" where
  "guards op_stack e =
     (plain_top op_stack \<and> (case e of Binary op _ _ \<Rightarrow> keeps_top op op_stack | _ \<Rightarrow> True))"

section \<open>Running the calculator on concrete input\<close>

lemmas char_class_defs =
  c_isspace_def c_isdigit_def c_isalpha_def c_isalnum_def ident_char_def ident_start_def
  is_operator_char_def

lemmas limit_defs =
  MAX_TOKENS_def MAX_IDENTIFIER_LEN_def MAX_VARIABLES_def NMRI_MAX_INPUT_def
  CMD_LINE_EXPR_BUFFER_SIZE_def

lemmas tokenize_defs =
  tokenize_def char_to_op_def resolve_identifier_def constant_value_def function_map_def
  strtod_decimal_def exponent_part_def digit_val_def int_power_def

lemmas evaluate_defs =
  shunting_yard_def pops_def is_function_token_def evaluate_postfix_def literal_def
  c_pow_def is_integer_def dsub_def dle_def dgt_def returned_def

lemmas run_defs = char_class_defs limit_defs tokenize_defs evaluate_defs evaluate_expression_def

section \<open>Precedence and associativity\<close>

lemma postfix_split: "postfix_of e = emitted e @ map TOKEN_OPERATOR (pending e)"
  by (induction e) auto

lemma postfix_shorter: "length (postfix_of e) \<le> length (infix_of e)"
  by (induction e) (auto simp: operand_def)

lemma pops_applied_first: "pops op (TOKEN_OPERATOR q) = applied_first q op"
  by (cases op; cases q) (simp_all add: pops_def applied_first_def)

lemma pops_higher:
  "pops op (TOKEN_OPERATOR q) \<Longrightarrow> precedence q \<le> precedence p \<Longrightarrow> pops op (TOKEN_OPERATOR p)"
  by (auto simp: pops_def)

lemma not_pops_higher:
  "\<not> pops op t \<Longrightarrow> precedence op \<le> precedence p \<Longrightarrow> \<not> pops p t"
  by (cases t; cases op; cases p) (auto simp: pops_def)

lemma pending_precedence:
  "p \<in> set (pending (Binary op l r)) \<Longrightarrow> precedence op \<le> precedence p"
proof (induction r arbitrary: op l p)
  case (Binary op' l' r')
  then show ?case
    by (cases op; cases op') (fastforce simp: right_bare_def applied_first_def split: if_splits)+
qed (auto simp: right_bare_def)


lemma pop_operators_pending:
  "\<forall>p \<in> set ps. pops op (TOKEN_OPERATOR p) \<Longrightarrow> keeps_top op S
   \<Longrightarrow> length out + length ps \<le> M
   \<Longrightarrow> pop_operators op M (map TOKEN_OPERATOR ps @ S) out = Inr (S, out @ map TOKEN_OPERATOR ps)"
proof (induction ps arbitrary: out)
  case Nil
  then show ?case by (cases S) (simp_all add: keeps_top_def)
next
  case (Cons p ps)
  from Cons.prems have "pop_operators op M (map TOKEN_OPERATOR ps @ S) (out @ [TOKEN_OPERATOR p])
      = Inr (S, (out @ [TOKEN_OPERATOR p]) @ map TOKEN_OPERATOR ps)"
    by (intro Cons.IH) simp_all
  with Cons.prems show ?case by simp
qed

lemma pop_to_lparen_pending:
  "length out + length ps \<le> M
   \<Longrightarrow> pop_to_lparen M (map TOKEN_OPERATOR ps @ TOKEN_LPAREN # S) out
       = Inr (TOKEN_LPAREN # S, out @ map TOKEN_OPERATOR ps)"
  by (induction ps arbitrary: out) simp_all

lemma pop_remaining_pending:
  "length out + length ps \<le> M
   \<Longrightarrow> pop_remaining M (map TOKEN_OPERATOR ps) out = Inr (out @ map TOKEN_OPERATOR ps)"
  by (induction ps arbitrary: out) simp_all


lemma postfix_length: "length (postfix_of e) = length (emitted e) + length (pending e)"
  by (simp add: postfix_split)

lemma guards_lparen: "guards (TOKEN_LPAREN # S) x"
  by (simp add: guards_def plain_top_def keeps_top_def pops_def is_function_token_def
      split: expr.splits)

lemma loop_parenthesised:
  assumes step: "\<And>S out rest. length S + length out + length (infix_of x) \<le> MAX_TOKENS
            \<Longrightarrow> guards S x
            \<Longrightarrow> shunting_loop MAX_TOKENS (infix_of x @ rest) S out =
                shunting_loop MAX_TOKENS rest (map TOKEN_OPERATOR (pending x) @ S) (out @ emitted x)"
    and plain: "plain_top S"
    and room: "length S + length out + length (infix_of x) + 2 \<le> MAX_TOKENS"
  shows "shunting_loop MAX_TOKENS (TOKEN_LPAREN # infix_of x @ TOKEN_RPAREN # rest) S out =
         shunting_loop MAX_TOKENS rest S (out @ postfix_of x)"
proof -
  from room have "shunting_loop MAX_TOKENS (TOKEN_LPAREN # infix_of x @ TOKEN_RPAREN # rest) S out =
      shunting_loop MAX_TOKENS (infix_of x @ TOKEN_RPAREN # rest) (TOKEN_LPAREN # S) out"
    by simp
  also from room have "\<dots> = shunting_loop MAX_TOKENS (TOKEN_RPAREN # rest)
      (map TOKEN_OPERATOR (pending x) @ TOKEN_LPAREN # S) (out @ emitted x)"
    by (intro step guards_lparen) simp
  also have "\<dots> = shunting_loop MAX_TOKENS rest S (out @ postfix_of x)"
  proof -
    from room postfix_shorter [of x]
    have "length (out @ emitted x) + length (pending x) \<le> MAX_TOKENS"
      by (simp add: postfix_length)
    then have "pop_to_lparen MAX_TOKENS (map TOKEN_OPERATOR (pending x) @ TOKEN_LPAREN # S)
        (out @ emitted x) = Inr (TOKEN_LPAREN # S, (out @ emitted x) @ map TOKEN_OPERATOR (pending x))"
      by (rule pop_to_lparen_pending)
    with plain show ?thesis
      by (cases S) (simp_all add: postfix_split plain_top_def)
  qed
  finally show ?thesis .
qed

lemma loop_call:
  assumes step: "\<And>S out rest. length S + length out + length (infix_of x) \<le> MAX_TOKENS
            \<Longrightarrow> guards S x
            \<Longrightarrow> shunting_loop MAX_TOKENS (infix_of x @ rest) S out =
                shunting_loop MAX_TOKENS rest (map TOKEN_OPERATOR (pending x) @ S) (out @ emitted x)"
    and room: "length S + length out + length (infix_of x) + 3 \<le> MAX_TOKENS"
  shows "shunting_loop MAX_TOKENS
           (TOKEN_FUNCTION f # TOKEN_LPAREN # infix_of x @ TOKEN_RPAREN # rest) S out =
         shunting_loop MAX_TOKENS rest S (out @ postfix_of x @ [TOKEN_FUNCTION f])"
proof -
  from room have "shunting_loop MAX_TOKENS
        (TOKEN_FUNCTION f # TOKEN_LPAREN # infix_of x @ TOKEN_RPAREN # rest) S out =
      shunting_loop MAX_TOKENS (infix_of x @ TOKEN_RPAREN # rest)
        (TOKEN_LPAREN # TOKEN_FUNCTION f # S) out"
    by simp
  also from room have "\<dots> = shunting_loop MAX_TOKENS (TOKEN_RPAREN # rest)
      (map TOKEN_OPERATOR (pending x) @ TOKEN_LPAREN # TOKEN_FUNCTION f # S) (out @ emitted x)"
    by (intro step guards_lparen) simp
  also have "\<dots> = shunting_loop MAX_TOKENS rest S (out @ postfix_of x @ [TOKEN_FUNCTION f])"
  proof -
    from room postfix_shorter [of x]
    have fits: "length (out @ emitted x) + length (pending x) < MAX_TOKENS"
      by (simp add: postfix_length)
    then have "pop_to_lparen MAX_TOKENS
        (map TOKEN_OPERATOR (pending x) @ TOKEN_LPAREN # TOKEN_FUNCTION f # S) (out @ emitted x) =
        Inr (TOKEN_LPAREN # TOKEN_FUNCTION f # S, (out @ emitted x) @ map TOKEN_OPERATOR (pending x))"
      by (intro pop_to_lparen_pending) simp
    with fits show ?thesis
      by (simp add: postfix_split is_function_token_def)
  qed
  finally show ?thesis .
qed

lemma loop_left_operand:
  assumes step: "\<And>S out rest. length S + length out + length (infix_of l) \<le> MAX_TOKENS
            \<Longrightarrow> guards S l
            \<Longrightarrow> shunting_loop MAX_TOKENS (infix_of l @ rest) S out =
                shunting_loop MAX_TOKENS rest (map TOKEN_OPERATOR (pending l) @ S) (out @ emitted l)"
    and plain: "plain_top S" and keeps: "keeps_top op S"
    and room: "length S + length out + length (operand (left_bare op l) (infix_of l)) + 1
                 \<le> MAX_TOKENS"
  shows "shunting_loop MAX_TOKENS
           (operand (left_bare op l) (infix_of l) @ TOKEN_OPERATOR op # rest) S out =
         shunting_loop MAX_TOKENS rest (TOKEN_OPERATOR op # S) (out @ postfix_of l)"
proof (cases "left_bare op l")
  case True
  have guarded: "guards S l"
  proof (cases l)
    case (Binary left_op ll lr)
    with True have "precedence op \<le> precedence left_op"
      by (auto simp: left_bare_def applied_first_def)
    with keeps have "keeps_top left_op S"
      by (auto simp: keeps_top_def split: list.splits dest: not_pops_higher)
    with plain Binary show ?thesis by (simp add: guards_def)
  qed (simp_all add: guards_def plain)
  have flush: "\<forall>p \<in> set (pending l). pops op (TOKEN_OPERATOR p)"
  proof (cases l)
    case (Binary left_op ll lr)
    with True have "pops op (TOKEN_OPERATOR left_op)"
      by (simp add: left_bare_def pops_applied_first)
    then show ?thesis
      unfolding Binary by (blast intro: pops_higher pending_precedence)
  qed simp_all
  from room True postfix_shorter [of l]
  have fits: "length (out @ emitted l) + length (pending l) \<le> MAX_TOKENS"
    by (simp add: postfix_length operand_def)
  from True have "shunting_loop MAX_TOKENS
        (operand (left_bare op l) (infix_of l) @ TOKEN_OPERATOR op # rest) S out =
      shunting_loop MAX_TOKENS (infix_of l @ TOKEN_OPERATOR op # rest) S out"
    by (simp add: operand_def)
  also from room True have "\<dots> = shunting_loop MAX_TOKENS (TOKEN_OPERATOR op # rest)
      (map TOKEN_OPERATOR (pending l) @ S) (out @ emitted l)"
    by (intro step guarded) (simp add: operand_def)
  also from room have "\<dots> = shunting_loop MAX_TOKENS rest (TOKEN_OPERATOR op # S) (out @ postfix_of l)"
    by (simp add: pop_operators_pending [OF flush keeps fits] postfix_split)
  finally show ?thesis .
next
  case False
  from room False have inner: "length S + length out + length (infix_of l) + 2 \<le> MAX_TOKENS"
    by (simp add: operand_def)
  have none: "pop_operators op MAX_TOKENS S (out @ postfix_of l) = Inr (S, out @ postfix_of l)"
    using pop_operators_pending [of "[]" op S "out @ postfix_of l" MAX_TOKENS] keeps inner
      postfix_shorter [of l] by simp
  from False have "shunting_loop MAX_TOKENS
        (operand (left_bare op l) (infix_of l) @ TOKEN_OPERATOR op # rest) S out =
      shunting_loop MAX_TOKENS (TOKEN_LPAREN # infix_of l @ TOKEN_RPAREN # TOKEN_OPERATOR op # rest)
        S out"
    by (simp add: operand_def)
  also have "\<dots> = shunting_loop MAX_TOKENS (TOKEN_OPERATOR op # rest) S (out @ postfix_of l)"
    using step plain inner by (rule loop_parenthesised)
  also from room have "\<dots> = shunting_loop MAX_TOKENS rest (TOKEN_OPERATOR op # S) (out @ postfix_of l)"
    by (simp add: none)
  finally show ?thesis .
qed


lemma loop_right_operand:
  assumes step: "\<And>S out rest. length S + length out + length (infix_of r) \<le> MAX_TOKENS
            \<Longrightarrow> guards S r
            \<Longrightarrow> shunting_loop MAX_TOKENS (infix_of r @ rest) S out =
                shunting_loop MAX_TOKENS rest (map TOKEN_OPERATOR (pending r) @ S) (out @ emitted r)"
    and room: "length S + length out + length (operand (right_bare op r) (infix_of r)) + 1
                 \<le> MAX_TOKENS"
  shows "shunting_loop MAX_TOKENS (operand (right_bare op r) (infix_of r) @ rest)
           (TOKEN_OPERATOR op # S) out =
         shunting_loop MAX_TOKENS rest (map TOKEN_OPERATOR (pending (Binary op l r)) @ S)
           (out @ (if right_bare op r then emitted r else postfix_of r))"
proof (cases "right_bare op r")
  case True
  then have guarded: "guards (TOKEN_OPERATOR op # S) r"
    by (cases r)
      (simp_all add: guards_def plain_top_def keeps_top_def is_function_token_def right_bare_def
        pops_applied_first)
  from room True show ?thesis
    by (simp add: operand_def step [OF _ guarded])
next
  case False
  have "plain_top (TOKEN_OPERATOR op # S)"
    by (simp add: plain_top_def is_function_token_def)
  moreover from room False
  have "length (TOKEN_OPERATOR op # S) + length out + length (infix_of r) + 2 \<le> MAX_TOKENS"
    by (simp add: operand_def)
  ultimately have "shunting_loop MAX_TOKENS (TOKEN_LPAREN # infix_of r @ TOKEN_RPAREN # rest)
      (TOKEN_OPERATOR op # S) out =
      shunting_loop MAX_TOKENS rest (TOKEN_OPERATOR op # S) (out @ postfix_of r)"
    by (intro loop_parenthesised step)
  with False show ?thesis
    by (simp add: operand_def)
qed

lemma loop_expression:
  "length S + length out + length (infix_of e) \<le> MAX_TOKENS \<Longrightarrow> guards S e
   \<Longrightarrow> shunting_loop MAX_TOKENS (infix_of e @ rest) S out =
       shunting_loop MAX_TOKENS rest (map TOKEN_OPERATOR (pending e) @ S) (out @ emitted e)"
proof (induction e arbitrary: S out rest)
  case (Number v pct)
  then show ?case by simp
next
  case (Binary op l r)
  let ?left = "operand (left_bare op l) (infix_of l)"
  let ?right = "operand (right_bare op r) (infix_of r)"
  from Binary.prems have plain: "plain_top S" and keeps: "keeps_top op S"
    by (simp_all add: guards_def)
  from Binary.prems(1) have room: "length S + length out + length ?left + 1 + length ?right \<le> MAX_TOKENS"
    by simp
  have "length (infix_of l) \<le> length ?left"
    by (simp add: operand_def)
  with room postfix_shorter [of l]
  have room': "length S + length (out @ postfix_of l) + length ?right + 1 \<le> MAX_TOKENS"
    by simp
  have "shunting_loop MAX_TOKENS (infix_of (Binary op l r) @ rest) S out =
      shunting_loop MAX_TOKENS (?left @ TOKEN_OPERATOR op # ?right @ rest) S out"
    by simp
  also from room have "\<dots> = shunting_loop MAX_TOKENS (?right @ rest) (TOKEN_OPERATOR op # S)
      (out @ postfix_of l)"
    by (intro loop_left_operand Binary.IH(1) plain keeps) simp_all
  also have "\<dots> = shunting_loop MAX_TOKENS rest (map TOKEN_OPERATOR (pending (Binary op l r)) @ S)
      ((out @ postfix_of l) @ (if right_bare op r then emitted r else postfix_of r))"
    using Binary.IH(2) room' by (rule loop_right_operand)
  finally show ?case by simp
next
  case (Call f x)
  from Call.prems(1)
  have "shunting_loop MAX_TOKENS
          (TOKEN_FUNCTION f # TOKEN_LPAREN # infix_of x @ TOKEN_RPAREN # rest) S out =
        shunting_loop MAX_TOKENS rest S (out @ postfix_of x @ [TOKEN_FUNCTION f])"
    by (intro loop_call Call.IH) simp_all
  then show ?case by simp
next
  case (Parenthesised x)
  from Parenthesised.prems
  have "shunting_loop MAX_TOKENS (TOKEN_LPAREN # infix_of x @ TOKEN_RPAREN # rest) S out =
        shunting_loop MAX_TOKENS rest S (out @ postfix_of x)"
    by (intro loop_parenthesised Parenthesised.IH) (simp_all add: guards_def)
  then show ?case by simp
qed

lemma shunting_yard_expression:
  assumes "length (infix_of e) \<le> MAX_TOKENS"
  shows "shunting_yard (infix_of e) MAX_TOKENS = Inr (postfix_of e)"
proof -
  have "guards [] e"
    by (simp add: guards_def plain_top_def keeps_top_def split: expr.splits)
  with assms loop_expression [of "[]" "[]" e "[]"]
  have "shunting_loop MAX_TOKENS (infix_of e) [] [] =
      Inr (map TOKEN_OPERATOR (pending e), emitted e)"
    by simp
  moreover from assms postfix_shorter [of e]
  have "pop_remaining MAX_TOKENS (map TOKEN_OPERATOR (pending e)) (emitted e) =
      Inr (emitted e @ map TOKEN_OPERATOR (pending e))"
    by (intro pop_remaining_pending) (simp add: postfix_length)
  ultimately show ?thesis
    by (simp add: shunting_yard_def postfix_split)
qed

text \<open>
  C1. The precedence of \<open>+\<close> and \<open>-\<close> is 1, that of \<open>*\<close>, \<open>/\<close> and \<open>%\<close> is 2, that of \<open>^\<close>
  is 3, and every operator but \<open>^\<close> is left-associative. The conversion honours both:
  every expression, written in infix with parentheses only where precedence and
  associativity ask for them (and wherever else it has some), within the token limit,
  is converted to its own postfix form, whatever its depth, its operators and its
  function calls. In particular, in \<open>a op1 b op2 c\<close> the first operator is applied first
  exactly when it binds tighter than the second, or as tightly with the second
  left-associative. So \<open>2^3^2\<close> is 512, \<open>2+3*4\<close> is 14, \<open>(2+3)*4\<close> is 20, \<open>1-2*3-4\<close> is -9
  and \<open>2*3^2^2/9-8/4/2\<close> is 17, in every state of the calculator.
\<close>

theorem precedence_and_associativity:
  "precedence OP_ADD = 1 \<and> precedence OP_SUB = 1
   \<and> precedence OP_MUL = 2 \<and> precedence OP_DIV = 2 \<and> precedence OP_MOD = 2
   \<and> precedence OP_POW = 3
   \<and> is_left_associative op = (op \<noteq> OP_POW)
   \<and> (length (infix_of e) \<le> MAX_TOKENS
       \<longrightarrow> shunting_yard (infix_of e) MAX_TOKENS = Inr (postfix_of e))
   \<and> shunting_yard
         [TOKEN_NUMBER a pa, TOKEN_OPERATOR op1, TOKEN_NUMBER b pb, TOKEN_OPERATOR op2,
          TOKEN_NUMBER c pc] MAX_TOKENS =
       Inr (if precedence op2 < precedence op1
               \<or> (precedence op2 = precedence op1 \<and> is_left_associative op2)
            then [TOKEN_NUMBER a pa, TOKEN_NUMBER b pb, TOKEN_OPERATOR op1,
                  TOKEN_NUMBER c pc, TOKEN_OPERATOR op2]
            else [TOKEN_NUMBER a pa, TOKEN_NUMBER b pb, TOKEN_NUMBER c pc,
                  TOKEN_OPERATOR op2, TOKEN_OPERATOR op1])
   \<and> returned (fst (evaluate_expression strtod_decimal st ''2^3^2'')) = Fin 512
   \<and> returned (fst (evaluate_expression strtod_decimal st ''2+3*4'')) = Fin 14
   \<and> returned (fst (evaluate_expression strtod_decimal st ''(2+3)*4'')) = Fin 20
   \<and> returned (fst (evaluate_expression strtod_decimal st ''1-2*3-4'')) = Fin (- 9)
   \<and> returned (fst (evaluate_expression strtod_decimal st ''2*3^2^2/9-8/4/2'')) = Fin 17"
proof -
  have assoc: "is_left_associative op = (op \<noteq> OP_POW)"
    by (cases op) simp_all
  have general: "length (infix_of e) \<le> MAX_TOKENS
      \<longrightarrow> shunting_yard (infix_of e) MAX_TOKENS = Inr (postfix_of e)"
    by (intro impI shunting_yard_expression)
  have order:
    "shunting_yard
       [TOKEN_NUMBER a pa, TOKEN_OPERATOR op1, TOKEN_NUMBER b pb, TOKEN_OPERATOR op2,
        TOKEN_NUMBER c pc] MAX_TOKENS =
     Inr (if precedence op2 < precedence op1
             \<or> (precedence op2 = precedence op1 \<and> is_left_associative op2)
          then [TOKEN_NUMBER a pa, TOKEN_NUMBER b pb, TOKEN_OPERATOR op1,
                TOKEN_NUMBER c pc, TOKEN_OPERATOR op2]
          else [TOKEN_NUMBER a pa, TOKEN_NUMBER b pb, TOKEN_NUMBER c pc,
                TOKEN_OPERATOR op2, TOKEN_OPERATOR op1])"
    by (cases op1; cases op2; simp add: shunting_yard_def pops_def MAX_TOKENS_def)
  have power: "returned (fst (evaluate_expression strtod_decimal st ''2^3^2'')) = Fin 512"
    by (simp add: run_defs)
  have mixed: "returned (fst (evaluate_expression strtod_decimal st ''2+3*4'')) = Fin 14"
    by (simp add: run_defs)
  have parens: "returned (fst (evaluate_expression strtod_decimal st ''(2+3)*4'')) = Fin 20"
    by (simp add: run_defs)
  have chain: "returned (fst (evaluate_expression strtod_decimal st ''1-2*3-4'')) = Fin (- 9)"
    by (simp add: run_defs)
  have long: "returned (fst (evaluate_expression strtod_decimal st ''2*3^2^2/9-8/4/2'')) = Fin 17"
    by (simp add: run_defs)
  show ?thesis
    by (intro conjI precedence.simps assoc general order power mixed parens chain long)
qed

theorem precedence_and_associativity_witness:
  "length (infix_of
       (Binary OP_SUB
          (Binary OP_SUB (Number (Fin 1) False)
             (Binary OP_MUL (Number (Fin 2) False) (Number (Fin 3) False)))
          (Number (Fin 4) False))) \<le> MAX_TOKENS
   \<and> infix_of
       (Binary OP_SUB
          (Binary OP_SUB (Number (Fin 1) False)
             (Binary OP_MUL (Number (Fin 2) False) (Number (Fin 3) False)))
          (Number (Fin 4) False)) =
       [TOKEN_NUMBER (Fin 1) False, TOKEN_OPERATOR OP_SUB, TOKEN_NUMBER (Fin 2) False,
        TOKEN_OPERATOR OP_MUL, TOKEN_NUMBER (Fin 3) False, TOKEN_OPERATOR OP_SUB,
        TOKEN_NUMBER (Fin 4) False]
   \<and> shunting_yard
       [TOKEN_NUMBER (Fin 1) False, TOKEN_OPERATOR OP_SUB, TOKEN_NUMBER (Fin 2) False,
        TOKEN_OPERATOR OP_MUL, TOKEN_NUMBER (Fin 3) False, TOKEN_OPERATOR OP_SUB,
        TOKEN_NUMBER (Fin 4) False] MAX_TOKENS =
       Inr [TOKEN_NUMBER (Fin 1) False, TOKEN_NUMBER (Fin 2) False, TOKEN_NUMBER (Fin 3) False,
            TOKEN_OPERATOR OP_MUL, TOKEN_OPERATOR OP_SUB, TOKEN_NUMBER (Fin 4) False,
            TOKEN_OPERATOR OP_SUB]"
  using precedence_and_associativity
    [where e = "Binary OP_SUB
          (Binary OP_SUB (Number (Fin 1) False)
             (Binary OP_MUL (Number (Fin 2) False) (Number (Fin 3) False)))
          (Number (Fin 4) False)"]
  by (simp add: operand_def left_bare_def right_bare_def applied_first_def MAX_TOKENS_def)

section \<open>Unary sign after an operator\<close>

lemma dropWhile_spaces: "list_all c_isspace ws \<Longrightarrow> \<not> c_isspace c \<Longrightarrow> dropWhile c_isspace (ws @ c # p) = c # p"
  by (induction ws) auto

lemma sign_step:
  assumes ws: "list_all c_isspace ws" and room: "length tokens + 1 < max_tokens"
    and sign: "c = CHR ''-'' \<or> c = CHR ''+''" and op: "char_to_op c = Some op"
  shows "tokenize_loop sd st max_tokens (ws @ c # rest) tokens True =
         tokenize_loop sd st max_tokens rest
           (tokens @ [TOKEN_NUMBER (Fin 0) False, TOKEN_OPERATOR op]) True"
proof -
  from sign have kind: "\<not> c_isspace c" "\<not> ident_start c" "\<not> c_isdigit c" "c \<noteq> CHR ''.''"
      "is_operator_char c"
    by (auto simp: char_class_defs)
  from ws kind(1) have skip: "dropWhile c_isspace (ws @ c # rest) = c # rest"
    by (rule dropWhile_spaces)
  from room sign kind show ?thesis
    by (subst tokenize_loop.simps) (simp add: skip op del: tokenize_loop.simps)
qed

lemma operator_step:
  assumes ws: "list_all c_isspace ws" and room: "length tokens < max_tokens"
    and sign: "c = CHR ''*'' \<or> c = CHR ''/'' \<or> c = CHR ''^''" and op: "char_to_op c = Some op"
  shows "tokenize_loop sd st max_tokens (ws @ c # rest) tokens expecting_operand =
         tokenize_loop sd st max_tokens rest (tokens @ [TOKEN_OPERATOR op]) True"
proof -
  from sign have kind: "\<not> c_isspace c" "\<not> ident_start c" "\<not> c_isdigit c" "c \<noteq> CHR ''.''"
      "is_operator_char c" "c \<noteq> CHR ''-''" "c \<noteq> CHR ''+''"
    by (auto simp: char_class_defs)
  from ws kind(1) have skip: "dropWhile c_isspace (ws @ c # rest) = c # rest"
    by (rule dropWhile_spaces)
  from room kind show ?thesis
    by (subst tokenize_loop.simps) (simp add: skip op del: tokenize_loop.simps)
qed

lemma operator_then_sign:
  assumes "list_all c_isspace ws" and "list_all c_isspace ws'"
    and "length tokens + 2 < max_tokens"
    and "c = CHR ''*'' \<or> c = CHR ''/'' \<or> c = CHR ''^''" and "char_to_op c = Some op"
    and "s = CHR ''-'' \<or> s = CHR ''+''" and "char_to_op s = Some sign_op"
  shows "tokenize_loop sd st max_tokens (ws @ c # ws' @ s # rest) tokens expecting_operand =
         tokenize_loop sd st max_tokens rest
           (tokens @ [TOKEN_OPERATOR op, TOKEN_NUMBER (Fin 0) False, TOKEN_OPERATOR sign_op]) True"
proof -
  from assms(1,3,4,5)
  have "tokenize_loop sd st max_tokens (ws @ c # ws' @ s # rest) tokens expecting_operand =
      tokenize_loop sd st max_tokens (ws' @ s # rest) (tokens @ [TOKEN_OPERATOR op]) True"
    by (intro operator_step) simp_all
  also from assms(2,3,6,7) have "\<dots> = tokenize_loop sd st max_tokens rest
      ((tokens @ [TOKEN_OPERATOR op]) @ [TOKEN_NUMBER (Fin 0) False, TOKEN_OPERATOR sign_op]) True"
    by (intro sign_step) simp_all
  finally show ?thesis by simp
qed

lemma signed_term_postfix:
  assumes "op = OP_MUL \<or> op = OP_DIV \<or> op = OP_POW" and "sign_op = OP_SUB \<or> sign_op = OP_ADD"
  shows "shunting_yard
           [TOKEN_NUMBER a pa, TOKEN_OPERATOR op, TOKEN_NUMBER (Fin 0) False,
            TOKEN_OPERATOR sign_op, TOKEN_NUMBER b pb] MAX_TOKENS =
         Inr [TOKEN_NUMBER a pa, TOKEN_NUMBER (Fin 0) False, TOKEN_OPERATOR op,
              TOKEN_NUMBER b pb, TOKEN_OPERATOR sign_op]"
  using assms by (auto simp: shunting_yard_def pops_def MAX_TOKENS_def)

lemma signed_term_expression:
  assumes op: "op = OP_MUL \<or> op = OP_DIV \<or> op = OP_POW"
    and sign_op: "sign_op = OP_SUB \<or> sign_op = OP_ADD"
    and room: "length (operand (left_bare op l) (infix_of l))
                 + length (operand (right_bare sign_op r) (infix_of r)) + 3 \<le> MAX_TOKENS"
  shows "shunting_yard
           (operand (left_bare op l) (infix_of l)
              @ [TOKEN_OPERATOR op, TOKEN_NUMBER (Fin 0) False, TOKEN_OPERATOR sign_op]
              @ operand (right_bare sign_op r) (infix_of r)) MAX_TOKENS =
         Inr (postfix_of l @ [TOKEN_NUMBER (Fin 0) False, TOKEN_OPERATOR op]
                @ postfix_of r @ [TOKEN_OPERATOR sign_op])"
proof -
  let ?e = "Binary sign_op (Binary op l (Number (Fin 0) False)) r"
  from op sign_op have "left_bare sign_op (Binary op l (Number (Fin 0) False))"
    by (auto simp: left_bare_def applied_first_def)
  then have written: "infix_of ?e =
      operand (left_bare op l) (infix_of l)
        @ [TOKEN_OPERATOR op, TOKEN_NUMBER (Fin 0) False, TOKEN_OPERATOR sign_op]
        @ operand (right_bare sign_op r) (infix_of r)"
    by (simp add: operand_def right_bare_def)
  with room have "length (infix_of ?e) \<le> MAX_TOKENS"
    by simp
  then have "shunting_yard (infix_of ?e) MAX_TOKENS = Inr (postfix_of ?e)"
    by (rule shunting_yard_expression)
  then show ?thesis
    by (simp only: written) simp
qed

lemma signed_term_value:
  assumes "sign_op = OP_SUB \<or> sign_op = OP_ADD"
  shows "evaluate_postfix
           [TOKEN_NUMBER a pa, TOKEN_NUMBER (Fin 0) False, TOKEN_OPERATOR op,
            TOKEN_NUMBER b pb, TOKEN_OPERATOR sign_op] =
         (case apply_operator op \<lparr>num = a, is_percentage = pa\<rparr> \<lparr>num = Fin 0, is_percentage = False\<rparr> of
            Inl err \<Rightarrow> Inl err
          | Inr term_value \<Rightarrow>
              apply_operator sign_op \<lparr>num = term_value, is_percentage = False\<rparr>
                \<lparr>num = b, is_percentage = pb\<rparr>)"
  using assms
  by (auto simp: evaluate_postfix_def MAX_TOKENS_def literal_def split: sum.splits)

lemma zero_operand:
  "apply_operator OP_MUL \<lparr>num = Fin x, is_percentage = False\<rparr> \<lparr>num = Fin 0, is_percentage = False\<rparr> = Inr (Fin 0)"
  "apply_operator OP_POW \<lparr>num = a, is_percentage = pa\<rparr> \<lparr>num = Fin 0, is_percentage = False\<rparr> = Inr (Fin 1)"
  "apply_operator OP_DIV \<lparr>num = a, is_percentage = pa\<rparr> \<lparr>num = Fin 0, is_percentage = False\<rparr> = Inl DivByZero"
  by (simp_all add: literal_def c_pow_def)


lemma signed_variable:
  assumes x: "resolve_identifier st ''x'' = Inr (TOKEN_NUMBER a False, False)"
    and y: "resolve_identifier st ''y'' = Inr (TOKEN_NUMBER b False, False)"
  shows "fst (evaluate_expression sd st ''x*-y'') = Inr (dsub (dmul a (Fin 0)) b)"
    and "fst (evaluate_expression sd st ''x^-y'') = Inr (dsub (Fin 1) b)"
    and "evaluate_expression sd st ''x/-y'' = (Inl (EvalError DivByZero), st)"
    and "fst (evaluate_expression sd st ''x*+y'') = Inr (dadd (dmul a (Fin 0)) b)"
  by (simp_all add: x y tokenize_def char_class_defs limit_defs char_to_op_def
        evaluate_expression_def shunting_yard_def pops_def evaluate_postfix_def literal_def
        c_pow_def)

text \<open>
  C10. A sign where an operand is expected, \<open>-\<close> or \<open>+\<close>, is written as the number 0 and
  the binary operator of the sign, of precedence 1, wherever the tokenizer stands. After
  \<open>*\<close>, \<open>/\<close> or \<open>^\<close> an operand is expected, so the 0 becomes the right operand of that
  operator and the sign joins the whole term to what follows, whatever the operands are,
  numbers or expressions: \<open>a * - b\<close> is read as \<open>(a * 0) - b\<close>, \<open>a ^ - b\<close> as
  \<open>(a ^ 0) - b\<close>, which is \<open>1 - b\<close>, and \<open>a / - b\<close> as \<open>(a / 0) - b\<close>, which fails as a
  division by zero, in every state. So \<open>2*-3\<close> gives -3, \<open>2^-1\<close> gives 0 and \<open>2/-1\<close>
  gives no value.
\<close>

theorem unary_minus_after_operator:
  "(list_all c_isspace ws \<and> (s = CHR ''-'' \<or> s = CHR ''+'') \<and> char_to_op s = Some sign_op
    \<and> length tokens + 1 < max_tokens
    \<longrightarrow> precedence sign_op = 1
        \<and> tokenize_loop sd st max_tokens (ws @ s # rest) tokens True =
            tokenize_loop sd st max_tokens rest
              (tokens @ [TOKEN_NUMBER (Fin 0) False, TOKEN_OPERATOR sign_op]) True)
   \<and> (list_all c_isspace ws \<and> (s = CHR ''-'' \<or> s = CHR ''+'') \<and> char_to_op s = Some sign_op
       \<and> list_all c_isspace ws' \<and> (c = CHR ''*'' \<or> c = CHR ''/'' \<or> c = CHR ''^'')
       \<and> char_to_op c = Some op \<and> length tokens + 2 < max_tokens
       \<longrightarrow> tokenize_loop sd st max_tokens (ws' @ c # ws @ s # rest) tokens expecting_operand =
             tokenize_loop sd st max_tokens rest
               (tokens @ [TOKEN_OPERATOR op, TOKEN_NUMBER (Fin 0) False, TOKEN_OPERATOR sign_op])
               True
           \<and> shunting_yard
                 [TOKEN_NUMBER a pa, TOKEN_OPERATOR op, TOKEN_NUMBER (Fin 0) False,
                  TOKEN_OPERATOR sign_op, TOKEN_NUMBER b pb] MAX_TOKENS =
               Inr [TOKEN_NUMBER a pa, TOKEN_NUMBER (Fin 0) False, TOKEN_OPERATOR op,
                    TOKEN_NUMBER b pb, TOKEN_OPERATOR sign_op]
           \<and> evaluate_postfix
                 [TOKEN_NUMBER a pa, TOKEN_NUMBER (Fin 0) False, TOKEN_OPERATOR op,
                  TOKEN_NUMBER b pb, TOKEN_OPERATOR sign_op] =
               (case apply_operator op \<lparr>num = a, is_percentage = pa\<rparr>
                       \<lparr>num = Fin 0, is_percentage = False\<rparr> of
                  Inl err \<Rightarrow> Inl err
                | Inr term_value \<Rightarrow>
                    apply_operator sign_op \<lparr>num = term_value, is_percentage = False\<rparr>
                      \<lparr>num = b, is_percentage = pb\<rparr>))
   \<and> ((op = OP_MUL \<or> op = OP_DIV \<or> op = OP_POW) \<and> (sign_op = OP_SUB \<or> sign_op = OP_ADD)
       \<and> length (operand (left_bare op l) (infix_of l))
            + length (operand (right_bare sign_op r) (infix_of r)) + 3 \<le> MAX_TOKENS
       \<longrightarrow> shunting_yard
             (operand (left_bare op l) (infix_of l)
                @ [TOKEN_OPERATOR op, TOKEN_NUMBER (Fin 0) False, TOKEN_OPERATOR sign_op]
                @ operand (right_bare sign_op r) (infix_of r)) MAX_TOKENS =
           Inr (postfix_of l @ [TOKEN_NUMBER (Fin 0) False, TOKEN_OPERATOR op]
                  @ postfix_of r @ [TOKEN_OPERATOR sign_op]))
   \<and> apply_operator OP_MUL \<lparr>num = Fin x, is_percentage = False\<rparr>
         \<lparr>num = Fin 0, is_percentage = False\<rparr> = Inr (Fin 0)
   \<and> apply_operator OP_POW \<lparr>num = a, is_percentage = pa\<rparr>
         \<lparr>num = Fin 0, is_percentage = False\<rparr> = Inr (Fin 1)
   \<and> apply_operator OP_DIV \<lparr>num = a, is_percentage = pa\<rparr>
         \<lparr>num = Fin 0, is_percentage = False\<rparr> = Inl DivByZero
   \<and> (resolve_identifier st ''x'' = Inr (TOKEN_NUMBER a False, False)
       \<and> resolve_identifier st ''y'' = Inr (TOKEN_NUMBER b False, False)
       \<longrightarrow> fst (evaluate_expression sd st ''x*-y'') = Inr (dsub (dmul a (Fin 0)) b)
           \<and> fst (evaluate_expression sd st ''x^-y'') = Inr (dsub (Fin 1) b)
           \<and> evaluate_expression sd st ''x/-y'' = (Inl (EvalError DivByZero), st)
           \<and> fst (evaluate_expression sd st ''x*+y'') = Inr (dadd (dmul a (Fin 0)) b))
   \<and> tokenize strtod_decimal st ''2*-3'' MAX_TOKENS =
       Inr [TOKEN_NUMBER (Fin 2) False, TOKEN_OPERATOR OP_MUL, TOKEN_NUMBER (Fin 0) False,
            TOKEN_OPERATOR OP_SUB, TOKEN_NUMBER (Fin 3) False]
   \<and> returned (fst (evaluate_expression strtod_decimal st ''2*-3'')) = Fin (- 3)
   \<and> tokenize strtod_decimal st ''2^-1'' MAX_TOKENS =
       Inr [TOKEN_NUMBER (Fin 2) False, TOKEN_OPERATOR OP_POW, TOKEN_NUMBER (Fin 0) False,
            TOKEN_OPERATOR OP_SUB, TOKEN_NUMBER (Fin 1) False]
   \<and> returned (fst (evaluate_expression strtod_decimal st ''2^-1'')) = Fin 0
   \<and> evaluate_expression strtod_decimal st ''2/-1'' = (Inl (EvalError DivByZero), st)"
proof -
  have sign: "list_all c_isspace ws \<and> (s = CHR ''-'' \<or> s = CHR ''+'') \<and> char_to_op s = Some sign_op
      \<and> length tokens + 1 < max_tokens
      \<longrightarrow> precedence sign_op = 1
          \<and> tokenize_loop sd st max_tokens (ws @ s # rest) tokens True =
              tokenize_loop sd st max_tokens rest
                (tokens @ [TOKEN_NUMBER (Fin 0) False, TOKEN_OPERATOR sign_op]) True"
  proof (intro impI conjI; elim conjE)
    assume that: "list_all c_isspace ws" "s = CHR ''-'' \<or> s = CHR ''+''"
      "char_to_op s = Some sign_op" "length tokens + 1 < max_tokens"
    from that(2,3) show "precedence sign_op = 1"
      by (auto simp: char_to_op_def)
    from that(1,4,2,3) show "tokenize_loop sd st max_tokens (ws @ s # rest) tokens True =
        tokenize_loop sd st max_tokens rest
          (tokens @ [TOKEN_NUMBER (Fin 0) False, TOKEN_OPERATOR sign_op]) True"
      by (rule sign_step)
  qed
  have after: "list_all c_isspace ws \<and> (s = CHR ''-'' \<or> s = CHR ''+'') \<and> char_to_op s = Some sign_op
       \<and> list_all c_isspace ws' \<and> (c = CHR ''*'' \<or> c = CHR ''/'' \<or> c = CHR ''^'')
       \<and> char_to_op c = Some op \<and> length tokens + 2 < max_tokens
       \<longrightarrow> tokenize_loop sd st max_tokens (ws' @ c # ws @ s # rest) tokens expecting_operand =
             tokenize_loop sd st max_tokens rest
               (tokens @ [TOKEN_OPERATOR op, TOKEN_NUMBER (Fin 0) False, TOKEN_OPERATOR sign_op])
               True
           \<and> shunting_yard
                 [TOKEN_NUMBER a pa, TOKEN_OPERATOR op, TOKEN_NUMBER (Fin 0) False,
                  TOKEN_OPERATOR sign_op, TOKEN_NUMBER b pb] MAX_TOKENS =
               Inr [TOKEN_NUMBER a pa, TOKEN_NUMBER (Fin 0) False, TOKEN_OPERATOR op,
                    TOKEN_NUMBER b pb, TOKEN_OPERATOR sign_op]
           \<and> evaluate_postfix
                 [TOKEN_NUMBER a pa, TOKEN_NUMBER (Fin 0) False, TOKEN_OPERATOR op,
                  TOKEN_NUMBER b pb, TOKEN_OPERATOR sign_op] =
               (case apply_operator op \<lparr>num = a, is_percentage = pa\<rparr>
                       \<lparr>num = Fin 0, is_percentage = False\<rparr> of
                  Inl err \<Rightarrow> Inl err
                | Inr term_value \<Rightarrow>
                    apply_operator sign_op \<lparr>num = term_value, is_percentage = False\<rparr>
                      \<lparr>num = b, is_percentage = pb\<rparr>)"
  proof (intro impI, elim conjE)
    assume that: "list_all c_isspace ws" "s = CHR ''-'' \<or> s = CHR ''+''"
      "char_to_op s = Some sign_op" "list_all c_isspace ws'"
      "c = CHR ''*'' \<or> c = CHR ''/'' \<or> c = CHR ''^''"
      "char_to_op c = Some op" "length tokens + 2 < max_tokens"
    from that(5,6) have op: "op = OP_MUL \<or> op = OP_DIV \<or> op = OP_POW"
      by (auto simp: char_to_op_def)
    from that(2,3) have sign_op: "sign_op = OP_SUB \<or> sign_op = OP_ADD"
      by (auto simp: char_to_op_def)
    show "tokenize_loop sd st max_tokens (ws' @ c # ws @ s # rest) tokens expecting_operand =
             tokenize_loop sd st max_tokens rest
               (tokens @ [TOKEN_OPERATOR op, TOKEN_NUMBER (Fin 0) False, TOKEN_OPERATOR sign_op])
               True
           \<and> shunting_yard
                 [TOKEN_NUMBER a pa, TOKEN_OPERATOR op, TOKEN_NUMBER (Fin 0) False,
                  TOKEN_OPERATOR sign_op, TOKEN_NUMBER b pb] MAX_TOKENS =
               Inr [TOKEN_NUMBER a pa, TOKEN_NUMBER (Fin 0) False, TOKEN_OPERATOR op,
                    TOKEN_NUMBER b pb, TOKEN_OPERATOR sign_op]
           \<and> evaluate_postfix
                 [TOKEN_NUMBER a pa, TOKEN_NUMBER (Fin 0) False, TOKEN_OPERATOR op,
                  TOKEN_NUMBER b pb, TOKEN_OPERATOR sign_op] =
               (case apply_operator op \<lparr>num = a, is_percentage = pa\<rparr>
                       \<lparr>num = Fin 0, is_percentage = False\<rparr> of
                  Inl err \<Rightarrow> Inl err
                | Inr term_value \<Rightarrow>
                    apply_operator sign_op \<lparr>num = term_value, is_percentage = False\<rparr>
                      \<lparr>num = b, is_percentage = pb\<rparr>)"
      by (intro conjI operator_then_sign [OF that(4,1,7,5,6,2,3)]
          signed_term_postfix [OF op sign_op] signed_term_value [OF sign_op])
  qed
  have terms: "(op = OP_MUL \<or> op = OP_DIV \<or> op = OP_POW) \<and> (sign_op = OP_SUB \<or> sign_op = OP_ADD)
       \<and> length (operand (left_bare op l) (infix_of l))
            + length (operand (right_bare sign_op r) (infix_of r)) + 3 \<le> MAX_TOKENS
       \<longrightarrow> shunting_yard
             (operand (left_bare op l) (infix_of l)
                @ [TOKEN_OPERATOR op, TOKEN_NUMBER (Fin 0) False, TOKEN_OPERATOR sign_op]
                @ operand (right_bare sign_op r) (infix_of r)) MAX_TOKENS =
           Inr (postfix_of l @ [TOKEN_NUMBER (Fin 0) False, TOKEN_OPERATOR op]
                  @ postfix_of r @ [TOKEN_OPERATOR sign_op])"
    by (intro impI, elim conjE, rule signed_term_expression)
  have variables: "resolve_identifier st ''x'' = Inr (TOKEN_NUMBER a False, False)
       \<and> resolve_identifier st ''y'' = Inr (TOKEN_NUMBER b False, False)
       \<longrightarrow> fst (evaluate_expression sd st ''x*-y'') = Inr (dsub (dmul a (Fin 0)) b)
           \<and> fst (evaluate_expression sd st ''x^-y'') = Inr (dsub (Fin 1) b)
           \<and> evaluate_expression sd st ''x/-y'' = (Inl (EvalError DivByZero), st)
           \<and> fst (evaluate_expression sd st ''x*+y'') = Inr (dadd (dmul a (Fin 0)) b)"
    by (intro impI, elim conjE, intro conjI signed_variable)
  have runs: "tokenize strtod_decimal st ''2*-3'' MAX_TOKENS =
       Inr [TOKEN_NUMBER (Fin 2) False, TOKEN_OPERATOR OP_MUL, TOKEN_NUMBER (Fin 0) False,
            TOKEN_OPERATOR OP_SUB, TOKEN_NUMBER (Fin 3) False]"
    "returned (fst (evaluate_expression strtod_decimal st ''2*-3'')) = Fin (- 3)"
    "tokenize strtod_decimal st ''2^-1'' MAX_TOKENS =
       Inr [TOKEN_NUMBER (Fin 2) False, TOKEN_OPERATOR OP_POW, TOKEN_NUMBER (Fin 0) False,
            TOKEN_OPERATOR OP_SUB, TOKEN_NUMBER (Fin 1) False]"
    "returned (fst (evaluate_expression strtod_decimal st ''2^-1'')) = Fin 0"
    "evaluate_expression strtod_decimal st ''2/-1'' = (Inl (EvalError DivByZero), st)"
    by (simp_all add: run_defs)
  show ?thesis
    by (intro conjI sign after terms zero_operand variables runs)
qed


theorem unary_minus_after_operator_witness:
  "list_all c_isspace '' '' \<and> char_to_op CHR ''-'' = Some OP_SUB
   \<and> char_to_op CHR ''/'' = Some OP_DIV
   \<and> length [TOKEN_NUMBER (Fin 2) False] + 2 < MAX_TOKENS
   \<and> tokenize_loop strtod_decimal
         (snd (set_variable (snd (set_variable initial_state ''x'' (Fin 2))) ''y'' (Fin 3)))
         MAX_TOKENS '' / -1'' [TOKEN_NUMBER (Fin 2) False] False =
       Inr [TOKEN_NUMBER (Fin 2) False, TOKEN_OPERATOR OP_DIV, TOKEN_NUMBER (Fin 0) False,
            TOKEN_OPERATOR OP_SUB, TOKEN_NUMBER (Fin 1) False]
   \<and> shunting_yard
         [TOKEN_NUMBER (Fin 2) False, TOKEN_OPERATOR OP_DIV, TOKEN_NUMBER (Fin 0) False,
          TOKEN_OPERATOR OP_SUB, TOKEN_NUMBER (Fin 3) False] MAX_TOKENS =
       Inr [TOKEN_NUMBER (Fin 2) False, TOKEN_NUMBER (Fin 0) False, TOKEN_OPERATOR OP_DIV,
            TOKEN_NUMBER (Fin 3) False, TOKEN_OPERATOR OP_SUB]
   \<and> evaluate_postfix
         [TOKEN_NUMBER (Fin 2) False, TOKEN_NUMBER (Fin 0) False, TOKEN_OPERATOR OP_DIV,
          TOKEN_NUMBER (Fin 3) False, TOKEN_OPERATOR OP_SUB] = Inl DivByZero
   \<and> length (infix_of (Binary OP_ADD (Number (Fin 1) False) (Number (Fin 2) False))) = 3
   \<and> shunting_yard
         [TOKEN_LPAREN, TOKEN_NUMBER (Fin 1) False, TOKEN_OPERATOR OP_ADD,
          TOKEN_NUMBER (Fin 2) False, TOKEN_RPAREN, TOKEN_OPERATOR OP_DIV,
          TOKEN_NUMBER (Fin 0) False, TOKEN_OPERATOR OP_SUB, TOKEN_NUMBER (Fin 3) False]
         MAX_TOKENS =
       Inr [TOKEN_NUMBER (Fin 1) False, TOKEN_NUMBER (Fin 2) False, TOKEN_OPERATOR OP_ADD,
            TOKEN_NUMBER (Fin 0) False, TOKEN_OPERATOR OP_DIV, TOKEN_NUMBER (Fin 3) False,
            TOKEN_OPERATOR OP_SUB]
   \<and> resolve_identifier
         (snd (set_variable (snd (set_variable initial_state ''x'' (Fin 2))) ''y'' (Fin 3))) ''x'' =
       Inr (TOKEN_NUMBER (Fin 2) False, False)
   \<and> resolve_identifier
         (snd (set_variable (snd (set_variable initial_state ''x'' (Fin 2))) ''y'' (Fin 3))) ''y'' =
       Inr (TOKEN_NUMBER (Fin 3) False, False)
   \<and> fst (evaluate_expression strtod_decimal
         (snd (set_variable (snd (set_variable initial_state ''x'' (Fin 2))) ''y'' (Fin 3)))
         ''x*-y'') = Inr (Fin (- 3))
   \<and> fst (evaluate_expression strtod_decimal
         (snd (set_variable (snd (set_variable initial_state ''x'' (Fin 2))) ''y'' (Fin 3)))
         ''x^-y'') = Inr (Fin (- 2))
   \<and> fst (evaluate_expression strtod_decimal
         (snd (set_variable (snd (set_variable initial_state ''x'' (Fin 2))) ''y'' (Fin 3)))
         ''x*+y'') = Inr (Fin 3)"
proof -
  let ?st = "snd (set_variable (snd (set_variable initial_state ''x'' (Fin 2))) ''y'' (Fin 3))"
  have known: "resolve_identifier ?st ''x'' = Inr (TOKEN_NUMBER (Fin 2) False, False)"
    "resolve_identifier ?st ''y'' = Inr (TOKEN_NUMBER (Fin 3) False, False)"
    by (simp_all add: resolve_identifier_def constant_value_def function_map_def
          find_variable_def set_variable_def initial_state_def limit_defs)
  have given: "list_all c_isspace '' ''" "char_to_op CHR ''-'' = Some OP_SUB"
    "char_to_op CHR ''/'' = Some OP_DIV" "length [TOKEN_NUMBER (Fin 2) False] + 2 < MAX_TOKENS"
    by (simp_all add: c_isspace_def char_to_op_def MAX_TOKENS_def)
  have rest: "tokenize_loop strtod_decimal ?st MAX_TOKENS ''1''
      [TOKEN_NUMBER (Fin 2) False, TOKEN_OPERATOR OP_DIV, TOKEN_NUMBER (Fin 0) False,
       TOKEN_OPERATOR OP_SUB] True =
      Inr [TOKEN_NUMBER (Fin 2) False, TOKEN_OPERATOR OP_DIV, TOKEN_NUMBER (Fin 0) False,
            TOKEN_OPERATOR OP_SUB, TOKEN_NUMBER (Fin 1) False]"
    by (simp add: char_class_defs limit_defs tokenize_defs)
  from known given rest
    unary_minus_after_operator
      [where ws = "'' ''" and ws' = "'' ''" and s = "CHR ''-''" and sign_op = OP_SUB
         and c = "CHR ''/''" and op = OP_DIV and tokens = "[TOKEN_NUMBER (Fin 2) False]"
         and max_tokens = MAX_TOKENS and rest = "''1''" and sd = strtod_decimal and st = ?st
         and a = "Fin 2" and b = "Fin 3" and pa = False and pb = False
         and expecting_operand = False
         and l = "Binary OP_ADD (Number (Fin 1) False) (Number (Fin 2) False)"
         and r = "Number (Fin 3) False"]
  show ?thesis
    by (simp add: dsub_def operand_def left_bare_def right_bare_def applied_first_def
          MAX_TOKENS_def del: tokenize_loop.simps)
qed

section \<open>Properties of the postfix evaluator\<close>

lemma eval_loop_append:
  "eval_loop (pre @ post) stack =
     (case eval_loop pre stack of Inl err \<Rightarrow> Inl err | Inr stack' \<Rightarrow> eval_loop post stack')"
  by (induction pre arbitrary: stack) (auto split: sum.splits)

lemma eval_loop_fails_at:
  "eval_loop pre [] = Inr stack \<Longrightarrow> eval_step token stack = Inl err \<Longrightarrow>
   evaluate_postfix (pre @ token # post) = Inl err"
  by (simp add: evaluate_postfix_def eval_loop_append)


text \<open>
  C4. Wherever a postfix evaluation applies \<open>/\<close> to a divisor that is zero after the
  percentage is resolved, it stops with the division-by-zero error, and wherever it
  applies \<open>%\<close> to a right operand that is zero, with the modulo-by-zero error, whatever
  tokens follow. A quotient or a remainder is only ever computed from a divisor that is
  not zero.
\<close>

theorem division_by_zero_fails:
  "(eval_loop pre [] = Inr (op_b # op_a # stack) \<and> deq (literal op_b) (Fin 0)
      \<longrightarrow> evaluate_postfix (pre @ TOKEN_OPERATOR OP_DIV # post) = Inl DivByZero)
   \<and> (eval_loop pre [] = Inr (op_b # op_a # stack) \<and> deq (num op_b) (Fin 0)
      \<longrightarrow> evaluate_postfix (pre @ TOKEN_OPERATOR OP_MOD # post) = Inl ModByZero)
   \<and> (apply_operator OP_DIV a b = Inr result \<longrightarrow> \<not> deq (literal b) (Fin 0))
   \<and> (apply_operator OP_MOD a b = Inr result \<longrightarrow> \<not> deq (num b) (Fin 0))
   \<and> fst (evaluate_expression strtod_decimal st ''5 / 0'') = Inl (EvalError DivByZero)
   \<and> fst (evaluate_expression strtod_decimal st ''5 % 0'') = Inl (EvalError ModByZero)"
proof -
  have div: "evaluate_postfix (pre @ TOKEN_OPERATOR OP_DIV # post) = Inl DivByZero"
    if "eval_loop pre [] = Inr (op_b # op_a # stack)" "deq (literal op_b) (Fin 0)"
    using that by (intro eval_loop_fails_at [where stack = "op_b # op_a # stack"]) simp_all
  have mod: "evaluate_postfix (pre @ TOKEN_OPERATOR OP_MOD # post) = Inl ModByZero"
    if "eval_loop pre [] = Inr (op_b # op_a # stack)" "deq (num op_b) (Fin 0)"
    using that by (intro eval_loop_fails_at [where stack = "op_b # op_a # stack"]) simp_all
  have guarded:
    "apply_operator OP_DIV a b = Inr result \<longrightarrow> \<not> deq (literal b) (Fin 0)"
    "apply_operator OP_MOD a b = Inr result \<longrightarrow> \<not> deq (num b) (Fin 0)"
    by (simp_all split: if_splits)
  have runs:
    "fst (evaluate_expression strtod_decimal st ''5 / 0'') = Inl (EvalError DivByZero)"
    "fst (evaluate_expression strtod_decimal st ''5 % 0'') = Inl (EvalError ModByZero)"
    by (simp_all add: run_defs)
  from div mod guarded runs show ?thesis
    by blast
qed

theorem division_by_zero_fails_witness:
  "eval_loop [TOKEN_NUMBER (Fin 5) False, TOKEN_NUMBER (Fin 0) True] [] =
     Inr [\<lparr>num = Fin 0, is_percentage = True\<rparr>, \<lparr>num = Fin 5, is_percentage = False\<rparr>]
   \<and> deq (literal \<lparr>num = Fin 0, is_percentage = True\<rparr>) (Fin 0)
   \<and> deq (num \<lparr>num = Fin 0, is_percentage = True\<rparr>) (Fin 0)
   \<and> evaluate_postfix
        [TOKEN_NUMBER (Fin 5) False, TOKEN_NUMBER (Fin 0) True, TOKEN_OPERATOR OP_DIV,
         TOKEN_NUMBER (Fin 1) False, TOKEN_OPERATOR OP_ADD] = Inl DivByZero
   \<and> evaluate_postfix
        [TOKEN_NUMBER (Fin 5) False, TOKEN_NUMBER (Fin 0) True, TOKEN_OPERATOR OP_MOD,
         TOKEN_NUMBER (Fin 1) False, TOKEN_OPERATOR OP_ADD] = Inl ModByZero
   \<and> apply_operator OP_DIV \<lparr>num = Fin 1, is_percentage = False\<rparr>
         \<lparr>num = Fin 4, is_percentage = False\<rparr> = Inr (Fin (1 / 4))
   \<and> apply_operator OP_MOD \<lparr>num = Fin 1, is_percentage = False\<rparr>
         \<lparr>num = Fin 4, is_percentage = False\<rparr> = Inr (Fin 1)
   \<and> \<not> deq (literal \<lparr>num = Fin 4, is_percentage = False\<rparr>) (Fin 0)
   \<and> \<not> deq (num \<lparr>num = Fin 4, is_percentage = False\<rparr>) (Fin 0)"
  using division_by_zero_fails
    [where pre = "[TOKEN_NUMBER (Fin 5) False, TOKEN_NUMBER (Fin 0) True]"
       and op_b = "\<lparr>num = Fin 0, is_percentage = True\<rparr>"
       and op_a = "\<lparr>num = Fin 5, is_percentage = False\<rparr>"
       and stack = "[]"
       and post = "[TOKEN_NUMBER (Fin 1) False, TOKEN_OPERATOR OP_ADD]"
       and a = "\<lparr>num = Fin 1, is_percentage = False\<rparr>"
       and b = "\<lparr>num = Fin 4, is_percentage = False\<rparr>"]
  by (simp add: literal_def MAX_TOKENS_def c_trunc_def)

section \<open>Failed cycles\<close>

lemma set_variable_refused: "set_variable st nm v = (None, st') \<Longrightarrow> st' = st"
  by (auto simp: set_variable_def split: if_splits option.splits)

lemma evaluate_expression_failed:
  "isnan (returned (fst (evaluate_expression sd st input)))
   \<Longrightarrow> snd (evaluate_expression sd st input) = st"
  by (auto simp: evaluate_expression_def returned_def
        split: sum.splits prod.splits option.splits if_splits)

lemma handle_assignment_failed:
  "isnan (returned (fst (handle_assignment sd st var_name expression)))
   \<Longrightarrow> snd (handle_assignment sd st var_name expression) = st"
  by (auto simp: handle_assignment_def returned_def
        dest: set_variable_refused split: sum.splits prod.splits option.splits if_splits)

text \<open>
  C3. A cycle fails when the function returns NAN: after an error of the tokenizer, of
  the conversion or of the evaluation, after an evaluation whose result is NaN, and, for
  an assignment, when \<open>set_variable\<close> refuses the result. Whenever
  \<open>evaluate_expression\<close> or \<open>handle_assignment\<close> fails, the state afterwards is the
  state before: \<open>last_result\<close>, every variable of the store, \<open>ans\<close> among them, and
  \<open>memory\<close>.
\<close>

theorem failed_cycle_leaves_state:
  "(isnan (returned (fst (evaluate_expression sd st input)))
      \<longrightarrow> snd (evaluate_expression sd st input) = st)
   \<and> (isnan (returned (fst (handle_assignment sd st var_name expression)))
      \<longrightarrow> snd (handle_assignment sd st var_name expression) = st)"
  using evaluate_expression_failed [of sd st input]
    handle_assignment_failed [of sd st var_name expression]
  by blast

theorem failed_cycle_leaves_state_witness:
  "fst (evaluate_expression strtod_decimal initial_state ''2 $ 3'') =
     Inl (LexError (InvalidChar CHR ''$''))
   \<and> snd (evaluate_expression strtod_decimal initial_state ''2 $ 3'') = initial_state
   \<and> fst (handle_assignment strtod_decimal initial_state ''y'' ''(2'') =
       Inl (ParseError MismatchedParen)
   \<and> snd (handle_assignment strtod_decimal initial_state ''y'' ''(2'') = initial_state
   \<and> fst (evaluate_expression strtod_decimal initial_state ''1/0'') =
       Inl (EvalError DivByZero)
   \<and> isnan (returned (fst (evaluate_expression strtod_decimal initial_state ''1/0'')))
   \<and> snd (evaluate_expression strtod_decimal initial_state ''1/0'') = initial_state
   \<and> fst (handle_assignment strtod_decimal initial_state [] ''7'') = Inl VariableStoreFull
   \<and> isnan (returned (fst (handle_assignment strtod_decimal initial_state [] ''7'')))
   \<and> snd (handle_assignment strtod_decimal initial_state [] ''7'') = initial_state"
proof -
  have failures:
    "fst (evaluate_expression strtod_decimal initial_state ''2 $ 3'') =
       Inl (LexError (InvalidChar CHR ''$''))"
    "fst (handle_assignment strtod_decimal initial_state ''y'' ''(2'') =
       Inl (ParseError MismatchedParen)"
    "fst (evaluate_expression strtod_decimal initial_state ''1/0'') = Inl (EvalError DivByZero)"
    "fst (handle_assignment strtod_decimal initial_state [] ''7'') = Inl VariableStoreFull"
    by (simp_all add: run_defs handle_assignment_def set_variable_def)
  from failures
    failed_cycle_leaves_state
      [of strtod_decimal initial_state "''2 $ 3''" "''y''" "''(2''"]
    failed_cycle_leaves_state
      [of strtod_decimal initial_state "''1/0''" "[]" "''7''"]
  show ?thesis
    by (simp add: returned_def)
qed

section \<open>Domain checks of the functions\<close>




section \<open>A computed NaN\<close>

text \<open>
  C9. An evaluation whose arithmetic ends in NaN, with no error raised, is reported in
  the same way as an evaluation that raised an error: the function returns NAN, the state
  (\<open>last_result\<close> and \<open>ans\<close> with it) is unchanged, and in command-line mode the exit
  code is 1. \<open>inf - inf\<close> and \<open>(0-1)^0.5\<close> are such evaluations.
\<close>

theorem computed_nan_is_failure:
  "(fst (evaluate_expression sd st input) = Inr result \<and> isnan result
      \<longrightarrow> returned (fst (evaluate_expression sd st input)) = NaN
          \<and> snd (evaluate_expression sd st input) = st)
   \<and> (fst (evaluate_expression sd st input) = Inl err
      \<longrightarrow> returned (fst (evaluate_expression sd st input)) = NaN
          \<and> snd (evaluate_expression sd st input) = st)
   \<and> (join_arguments [] args = Some joined
        \<and> isnan (returned (fst (evaluate_expression sd (snd (set_variable initial_state ''ans'' (Fin 0))) joined)))
      \<longrightarrow> main_command_line sd args = (1, snd (set_variable initial_state ''ans'' (Fin 0))))
   \<and> evaluate_expression strtod_decimal st ''inf - inf'' = (Inr NaN, st)
   \<and> evaluate_expression strtod_decimal st ''(0-1)^0.5'' = (Inr NaN, st)
   \<and> evaluate_expression strtod_decimal st ''1/0'' = (Inl (EvalError DivByZero), st)
   \<and> fst (main_command_line strtod_decimal [''inf'', ''-'', ''inf'']) = 1
   \<and> fst (main_command_line strtod_decimal [''(0-1)^0.5'']) = 1
   \<and> fst (main_command_line strtod_decimal [''1/0'']) = 1
   \<and> fst (main_command_line strtod_decimal [''1/4'']) = 0"
proof -
  have nan_result:
    "returned (fst (evaluate_expression sd st input)) = NaN \<and> snd (evaluate_expression sd st input) = st"
    if "fst (evaluate_expression sd st input) = Inr result" "isnan result"
    using that evaluate_expression_failed [of sd st input]
    by (cases result) (simp_all add: returned_def)
  have typed_error:
    "returned (fst (evaluate_expression sd st input)) = NaN \<and> snd (evaluate_expression sd st input) = st"
    if "fst (evaluate_expression sd st input) = Inl err"
    using that evaluate_expression_failed [of sd st input]
    by (simp add: returned_def)
  have exit_code:
    "main_command_line sd args = (1, snd (set_variable initial_state ''ans'' (Fin 0)))"
    if "join_arguments [] args = Some joined"
       "isnan (returned (fst (evaluate_expression sd (snd (set_variable initial_state ''ans'' (Fin 0))) joined)))"
    using that
      evaluate_expression_failed [of sd "snd (set_variable initial_state ''ans'' (Fin 0))" joined]
    by (cases "evaluate_expression sd (snd (set_variable initial_state ''ans'' (Fin 0))) joined")
      (simp add: main_command_line_def)
  have runs:
    "evaluate_expression strtod_decimal st ''inf - inf'' = (Inr NaN, st)"
    "evaluate_expression strtod_decimal st ''(0-1)^0.5'' = (Inr NaN, st)"
    "evaluate_expression strtod_decimal st ''1/0'' = (Inl (EvalError DivByZero), st)"
    by (simp_all add: run_defs)
  have exits:
    "fst (main_command_line strtod_decimal [''inf'', ''-'', ''inf'']) = 1"
    "fst (main_command_line strtod_decimal [''(0-1)^0.5'']) = 1"
    "fst (main_command_line strtod_decimal [''1/0'']) = 1"
    "fst (main_command_line strtod_decimal [''1/4'']) = 0"
    by (simp_all add: main_command_line_def run_defs initial_state_def set_variable_def
          find_variable_def split: prod.splits)
  from nan_result typed_error exit_code runs exits show ?thesis
    by blast
qed

theorem computed_nan_is_failure_witness:
  "fst (evaluate_expression strtod_decimal initial_state ''inf - inf'') = Inr NaN
   \<and> isnan NaN
   \<and> returned (fst (evaluate_expression strtod_decimal initial_state ''inf - inf'')) = NaN
   \<and> snd (evaluate_expression strtod_decimal initial_state ''inf - inf'') = initial_state
   \<and> fst (evaluate_expression strtod_decimal initial_state ''1/0'') = Inl (EvalError DivByZero)
   \<and> returned (fst (evaluate_expression strtod_decimal initial_state ''1/0'')) = NaN
   \<and> snd (evaluate_expression strtod_decimal initial_state ''1/0'') = initial_state
   \<and> join_arguments [] [''inf'', ''-'', ''inf''] = Some ''inf - inf''
   \<and> main_command_line strtod_decimal [''inf'', ''-'', ''inf''] =
       (1, snd (set_variable initial_state ''ans'' (Fin 0)))"
  using
    computed_nan_is_failure
      [where sd = strtod_decimal and st = initial_state and input = "''inf - inf''"
         and result = NaN and args = "[''inf'', ''-'', ''inf'']" and joined = "''inf - inf''"]
    computed_nan_is_failure
      [where sd = strtod_decimal and st = initial_state and input = "''1/0''"
         and err = "EvalError DivByZero"]
    computed_nan_is_failure
      [where sd = strtod_decimal and st = "snd (set_variable initial_state ''ans'' (Fin 0))"]
  by (simp add: limit_defs returned_def)

section \<open>The variable store and the last result\<close>

lemma find_from_lower: "find_from i vs nm = Some j \<Longrightarrow> i \<le> j"
  by (induction vs arbitrary: i) (auto split: if_splits dest: Suc_leD)

lemma find_from_value:
  "map_option (\<lambda>j. val (vs ! (j - i))) (find_from i vs nm) =
   map_of (map (\<lambda>v. (name v, val v)) vs) nm"
proof (induction vs arbitrary: i)
  case Nil
  show ?case by simp
next
  case (Cons v vs)
  show ?case
  proof (cases "name v = nm")
    case True
    then show ?thesis by simp
  next
    case False
    have "map_option (\<lambda>j. val ((v # vs) ! (j - i))) (find_from (Suc i) vs nm) =
          map_option (\<lambda>j. val (vs ! (j - Suc i))) (find_from (Suc i) vs nm)"
    proof (cases "find_from (Suc i) vs nm")
      case None
      then show ?thesis by simp
    next
      case (Some j)
      then have "Suc i \<le> j" by (rule find_from_lower)
      then have "j - i = Suc (j - Suc i)" by simp
      with Some show ?thesis by simp
    qed
    with False Cons.IH [of "Suc i"] show ?thesis by simp
  qed
qed

lemma variable_value_map_of:
  "variable_value st nm = map_of (map (\<lambda>v. (name v, val v)) (variables st)) nm"
  using find_from_value [of "variables st" 0 nm]
  by (simp add: variable_value_def find_variable_def)

lemma update_found:
  "find_from i vs nm = Some j \<Longrightarrow>
   map_of (map (\<lambda>v. (name v, val v)) (vs[j - i := (vs ! (j - i))\<lparr>val := x\<rparr>])) =
   (map_of (map (\<lambda>v. (name v, val v)) vs))(nm \<mapsto> x)"
proof (induction vs arbitrary: i)
  case Nil
  then show ?case by simp
next
  case (Cons v vs)
  show ?case
  proof (cases "name v = nm")
    case True
    with Cons.prems show ?thesis by auto
  next
    case False
    with Cons.prems have found: "find_from (Suc i) vs nm = Some j" by simp
    then have "Suc i \<le> j" by (rule find_from_lower)
    then have shift: "j - i = Suc (j - Suc i)" by simp
    from False Cons.IH [OF found] shift show ?thesis by auto
  qed
qed


lemma set_variable_keeps:
  assumes "variable_value st nm' = Some y"
  shows "\<exists>z. variable_value (snd (set_variable st nm x)) nm' = Some z"
proof (cases "find_variable st nm")
  case None
  with assms show ?thesis
    by (auto simp: set_variable_def variable_value_map_of map_add_def split: option.splits)
next
  case (Some k)
  with assms update_found [of 0 "variables st" nm k x] show ?thesis
    by (auto simp: set_variable_def variable_value_map_of find_variable_def)
qed


lemma variable_value_last_result [simp]:
  "variable_value (st\<lparr>last_result := r\<rparr>) = variable_value st"
  by (simp add: variable_value_def find_variable_def fun_eq_iff)

lemma variable_value_memory [simp]:
  "variable_value (st\<lparr>memory := r\<rparr>) = variable_value st"
  by (simp add: variable_value_def find_variable_def fun_eq_iff)

lemma ans_defined_value: "ans_defined st = (\<exists>y. variable_value st ''ans'' = Some y)"
  by (auto simp: ans_defined_def variable_value_def)



lemma ans_defined_set_variable: "ans_defined st \<Longrightarrow> ans_defined (snd (set_variable st nm x))"
  unfolding ans_defined_value by (auto dest: set_variable_keeps)

lemma ans_defined_last_result [simp]: "ans_defined (st\<lparr>last_result := r\<rparr>) = ans_defined st"
  by (simp add: ans_defined_value)

lemma ans_defined_memory [simp]: "ans_defined (st\<lparr>memory := r\<rparr>) = ans_defined st"
  by (simp add: ans_defined_value)




lemma successful_assignment:
  assumes "fst (handle_assignment sd st var_name expression) = Inr result" and "\<not> isnan result"
  shows "\<exists>index st'. set_variable st var_name result = (Some index, st')
           \<and> snd (handle_assignment sd st var_name expression) =
               snd (set_variable (st'\<lparr>last_result := result\<rparr>) ''ans'' result)"
  using assms
  by (auto simp: handle_assignment_def split: sum.splits if_splits option.splits prod.splits)



lemma ans_defined_evaluate_expression:
  "ans_defined st \<Longrightarrow> ans_defined (snd (evaluate_expression sd st input))"
  by (auto simp: evaluate_expression_def ans_defined_set_variable
        split: sum.splits if_splits)

lemma ans_defined_handle_assignment:
  "ans_defined st \<Longrightarrow> ans_defined (snd (handle_assignment sd st var_name expression))"
proof (cases "isnan (returned (fst (handle_assignment sd st var_name expression)))")
  case True
  assume "ans_defined st"
  with handle_assignment_failed [OF True] show ?thesis by simp
next
  case False
  assume defined: "ans_defined st"
  from False obtain result where
    "fst (handle_assignment sd st var_name expression) = Inr result" "\<not> isnan result"
    by (cases "fst (handle_assignment sd st var_name expression)") (auto simp: returned_def)
  from successful_assignment [OF this] obtain index st' where
    stored: "set_variable st var_name result = (Some index, st')" and
    after: "snd (handle_assignment sd st var_name expression) =
            snd (set_variable (st'\<lparr>last_result := result\<rparr>) ''ans'' result)"
    by blast
  from stored defined ans_defined_set_variable [of st var_name result]
  have "ans_defined st'" by simp
  with after show ?thesis
    by (simp add: ans_defined_set_variable)
qed

lemma ans_defined_process_command:
  "ans_defined st \<Longrightarrow> ans_defined (snd (process_command st input))"
  by (simp add: process_command_def store_command_def Let_def ans_defined_set_variable)

lemma ans_defined_main_line:
  assumes "ans_defined st"
  shows "ans_defined (snd (main_line sd st input))"
proof -
  let ?start = "dropWhile c_isspace input"
  obtain cmd_result st' where command: "process_command st ?start = (cmd_result, st')"
    by (cases "process_command st ?start")
  with assms ans_defined_process_command [of st ?start] have st': "ans_defined st'"
    by simp
  have evaluated: "ans_defined (snd (evaluate_expression sd st' ?start))"
    using st' by (rule ans_defined_evaluate_expression)
  have assigned: "ans_defined (snd (handle_assignment sd st' var_name expression))"
    for var_name expression
    using st' by (rule ans_defined_handle_assignment)
  show ?thesis
  proof (cases "check_assignment ?start")
    case NotAssignment
    with assms st' command evaluated show ?thesis
      by (auto simp: main_line_def Let_def split: prod.splits)
  next
    case (AssignTo var_name expression)
    with assms st' command assigned [of var_name expression] show ?thesis
      by (auto simp: main_line_def Let_def split: prod.splits)
  qed (use assms st' command in \<open>simp_all add: main_line_def Let_def\<close>)
qed



section \<open>Unknown identifiers\<close>

lemma ident_start_ident_char: "ident_start c \<Longrightarrow> ident_char c"
  by (auto simp: ident_start_def ident_char_def c_isalnum_def)

lemma ident_start_not_space: "ident_start c \<Longrightarrow> \<not> c_isspace c"
  by (auto simp: ident_start_def c_isalpha_def c_isspace_def)

lemma ident_start_not_digit: "ident_start c \<Longrightarrow> \<not> c_isdigit c"
  by (auto simp: ident_start_def c_isalpha_def c_isdigit_def)

lemma takeWhile_identifier:
  "list_all ident_char cs \<Longrightarrow> (case rest of [] \<Rightarrow> True | r # _ \<Rightarrow> \<not> ident_char r) \<Longrightarrow>
   takeWhile ident_char (cs @ rest) = cs \<and> dropWhile ident_char (cs @ rest) = rest"
  by (induction cs) (auto split: list.splits)

text \<open>
  C7. Wherever the tokenizer stands before an identifier (after optional whitespace)
  that is not followed by \<open>=\<close>, is no predefined constant, no function name and no
  variable of the store, it stops with an error and produces no token for it: the error
  for too many tokens when \<open>max_tokens\<close> tokens are already written, else the error for
  a too long identifier when it has \<open>MAX_IDENTIFIER_LEN\<close> characters or more, else the
  error for an unknown identifier, naming it. \<open>evaluate_expression\<close> and
  \<open>handle_assignment\<close> fail on an input that starts with such an identifier, with the
  second or the third of these errors, and leave the state as it was.
\<close>

theorem unknown_identifier_fails:
  "list_all c_isspace ws \<and> ident_start c \<and> list_all ident_char cs
   \<and> (case rest of [] \<Rightarrow> True | r # _ \<Rightarrow> \<not> ident_char r)
   \<and> (case dropWhile c_isspace rest of [] \<Rightarrow> True | n # _ \<Rightarrow> n \<noteq> CHR ''='')
   \<and> constant_value st (c # cs) = None
   \<and> map_of function_map (c # cs) = None
   \<and> find_variable st (c # cs) = None
   \<longrightarrow> tokenize_loop sd st max_tokens (ws @ c # cs @ rest) tokens expecting_operand =
         Inl (if max_tokens \<le> length tokens then TooComplex
              else if MAX_IDENTIFIER_LEN \<le> length (c # cs) then IdentifierTooLong
              else UnknownIdentifier (c # cs))
       \<and> evaluate_expression sd st (ws @ c # cs @ rest) =
           (Inl (LexError (if MAX_IDENTIFIER_LEN \<le> length (c # cs) then IdentifierTooLong
                           else UnknownIdentifier (c # cs))), st)
       \<and> handle_assignment sd st var_name (ws @ c # cs @ rest) =
           (Inl (LexError (if MAX_IDENTIFIER_LEN \<le> length (c # cs) then IdentifierTooLong
                           else UnknownIdentifier (c # cs))), st)"
proof (intro impI, elim conjE)
  assume ws: "list_all c_isspace ws" and c: "ident_start c" and cs: "list_all ident_char cs"
    and rest: "case rest of [] \<Rightarrow> True | r # _ \<Rightarrow> \<not> ident_char r"
    and no_equals: "case dropWhile c_isspace rest of [] \<Rightarrow> True | n # _ \<Rightarrow> n \<noteq> CHR ''=''"
    and unknown: "constant_value st (c # cs) = None" "map_of function_map (c # cs) = None"
      "find_variable st (c # cs) = None"
  from ws c have skip: "dropWhile c_isspace (ws @ c # cs @ rest) = c # cs @ rest"
    by (simp add: dropWhile_spaces ident_start_not_space)
  from takeWhile_identifier [OF cs rest]
  have word: "takeWhile ident_char (cs @ rest) = cs" "dropWhile ident_char (cs @ rest) = rest"
    by simp_all
  from unknown have unresolved: "resolve_identifier st (c # cs) = Inl (UnknownIdentifier (c # cs))"
    by (simp add: resolve_identifier_def)
  from no_equals
  have follows: "\<not> (case dropWhile c_isspace rest of [] \<Rightarrow> False | n # _ \<Rightarrow> n = CHR ''='')"
    by (simp del: dropWhile_eq_Nil_conv split: list.splits)
  have loop:
    "tokenize_loop sd st max_tokens (ws @ c # cs @ rest) tokens expecting_operand =
       Inl (if max_tokens \<le> length tokens then TooComplex
            else if MAX_IDENTIFIER_LEN \<le> length (c # cs) then IdentifierTooLong
            else UnknownIdentifier (c # cs))"
    for max_tokens tokens expecting_operand
    using c follows
    by (subst tokenize_loop.simps)
      (simp add: skip word unresolved ident_start_ident_char Let_def del: tokenize_loop.simps)
  from loop [of MAX_TOKENS "[]" True]
  have "tokenize sd st (ws @ c # cs @ rest) MAX_TOKENS =
      Inl (if MAX_IDENTIFIER_LEN \<le> length (c # cs) then IdentifierTooLong
           else UnknownIdentifier (c # cs))"
    by (simp add: tokenize_def MAX_TOKENS_def)
  with loop show
    "tokenize_loop sd st max_tokens (ws @ c # cs @ rest) tokens expecting_operand =
         Inl (if max_tokens \<le> length tokens then TooComplex
              else if MAX_IDENTIFIER_LEN \<le> length (c # cs) then IdentifierTooLong
              else UnknownIdentifier (c # cs))
       \<and> evaluate_expression sd st (ws @ c # cs @ rest) =
           (Inl (LexError (if MAX_IDENTIFIER_LEN \<le> length (c # cs) then IdentifierTooLong
                           else UnknownIdentifier (c # cs))), st)
       \<and> handle_assignment sd st var_name (ws @ c # cs @ rest) =
           (Inl (LexError (if MAX_IDENTIFIER_LEN \<le> length (c # cs) then IdentifierTooLong
                           else UnknownIdentifier (c # cs))), st)"
    by (simp add: evaluate_expression_def handle_assignment_def)
qed

theorem unknown_identifier_fails_witness:
  "list_all c_isspace ''  '' \<and> ident_start CHR ''u'' \<and> list_all ident_char ''nknown_var''
   \<and> constant_value initial_state ''unknown_var'' = None
   \<and> map_of function_map ''unknown_var'' = None
   \<and> find_variable initial_state ''unknown_var'' = None
   \<and> tokenize_loop strtod_decimal initial_state MAX_TOKENS ''  unknown_var + 1''
     [TOKEN_NUMBER (Fin 2) False, TOKEN_OPERATOR OP_MUL] True =
     Inl (UnknownIdentifier ''unknown_var'')
   \<and> evaluate_expression strtod_decimal initial_state ''  unknown_var + 1'' =
       (Inl (LexError (UnknownIdentifier ''unknown_var'')), initial_state)
   \<and> handle_assignment strtod_decimal initial_state ''y'' ''  unknown_var + 1'' =
       (Inl (LexError (UnknownIdentifier ''unknown_var'')), initial_state)"
  using unknown_identifier_fails
    [where ws = "''  ''" and c = "CHR ''u''" and cs = "''nknown_var''" and rest = "'' + 1''"
       and st = initial_state and tokens = "[TOKEN_NUMBER (Fin 2) False, TOKEN_OPERATOR OP_MUL]"
       and max_tokens = MAX_TOKENS and sd = strtod_decimal and expecting_operand = True
       and var_name = "''y''"]
  by (simp add: char_class_defs limit_defs constant_value_def function_map_def find_variable_def
        initial_state_def del: tokenize_loop.simps)

text \<open>
  The error is not always the one for an unknown identifier: an identifier of 32
  characters that is no constant, no function and no variable is refused for its length.
\<close>

theorem long_identifier_counterexample:
  "ident_start CHR ''a'' \<and> list_all ident_char ''aaaaaaaaaaaaaaaaaaaaaaaaaaaaaaaa''
   \<and> length ''aaaaaaaaaaaaaaaaaaaaaaaaaaaaaaaa'' = 32
   \<and> constant_value initial_state ''aaaaaaaaaaaaaaaaaaaaaaaaaaaaaaaa'' = None
   \<and> map_of function_map ''aaaaaaaaaaaaaaaaaaaaaaaaaaaaaaaa'' = None
   \<and> find_variable initial_state ''aaaaaaaaaaaaaaaaaaaaaaaaaaaaaaaa'' = None
   \<and> tokenize strtod_decimal initial_state ''aaaaaaaaaaaaaaaaaaaaaaaaaaaaaaaa + 1'' MAX_TOKENS =
       Inl IdentifierTooLong
   \<and> tokenize strtod_decimal initial_state ''aaaaaaaaaaaaaaaaaaaaaaaaaaaaaaaa + 1'' MAX_TOKENS \<noteq>
       Inl (UnknownIdentifier ''aaaaaaaaaaaaaaaaaaaaaaaaaaaaaaaa'')
   \<and> evaluate_expression strtod_decimal initial_state ''aaaaaaaaaaaaaaaaaaaaaaaaaaaaaaaa + 1'' =
       (Inl (LexError IdentifierTooLong), initial_state)"
  by (simp add: run_defs find_variable_def initial_state_def)


section \<open>Lines that are assignments\<close>

lemma constant_names_known: "(constant_value st nm \<noteq> None) = (nm \<in> set constant_names)"
  by (simp add: constant_value_def constant_names_def)

lemma reserved_words_reserved: "set reserved_words \<subseteq> set spec_reserved_names"
  by (simp add: reserved_words_def spec_reserved_names_def function_names_def function_map_def
        constant_names_def command_names_def)

lemma no_command_no_change: "fst (process_command st input) = 0 \<Longrightarrow> snd (process_command st input) = st"
  by (simp add: process_command_def Let_def split: if_splits)

lemma check_assignment_target:
  "(check_assignment start = AssignTo var_name expr_start) =
   (equals_before_operators start \<and> var_name = assignment_name start \<and> var_name \<noteq> []
    \<and> valid_name var_name \<and> length var_name < MAX_IDENTIFIER_LEN
    \<and> var_name \<notin> set reserved_words
    \<and> (\<exists>equals_pos. strchr start CHR ''='' = Some equals_pos
          \<and> expr_start = drop (Suc equals_pos) start))"
proof (cases "strchr start CHR ''=''")
  case None
  then show ?thesis
    by (simp add: check_assignment_def equals_before_operators_def)
next
  case (Some equals_pos)
  show ?thesis
  proof (cases "strpbrk start ''+-*/^%''")
    case None
    with Some show ?thesis
      unfolding check_assignment_def equals_before_operators_def assignment_name_def Let_def
      by (simp only: option.case if_False if_True simp_thms) (auto simp del: set_simps)
  next
    case (Some first_op)
    with \<open>strchr start CHR ''='' = Some equals_pos\<close> show ?thesis
      unfolding check_assignment_def equals_before_operators_def assignment_name_def Let_def
      by (simp only: option.case if_False if_True simp_thms) (auto simp del: set_simps)
  qed
qed

lemma reserved_words_valid:
  "nm \<in> set reserved_words \<Longrightarrow> valid_name nm \<and> 0 < length nm \<and> length nm < MAX_IDENTIFIER_LEN"
  by (auto simp: reserved_words_def valid_name_def char_class_defs limit_defs)

lemma check_assignment_reserved:
  assumes "equals_before_operators start" and "assignment_name start \<in> set reserved_words"
  shows "check_assignment start = ReservedName (assignment_name start)"
proof -
  from assms(1) obtain equals_pos where
    found: "strchr start CHR ''='' = Some equals_pos" and first: "0 < equals_pos" and
    before: "case strpbrk start ''+-*/^%'' of None \<Rightarrow> True | Some first_op \<Rightarrow> equals_pos < first_op"
    by (auto simp: equals_before_operators_def split: option.splits)
  let ?nm = "rev (dropWhile c_isspace (rev (take equals_pos start)))"
  from found have nm: "assignment_name start = ?nm"
    by (simp add: assignment_name_def)
  with assms(2) reserved_words_valid [of ?nm]
  have valid: "valid_name ?nm" "0 < length ?nm" "length ?nm < MAX_IDENTIFIER_LEN"
    "?nm \<in> set reserved_words"
    by simp_all
  from before
  have no_op: "\<not> (case strpbrk start ''+-*/^%'' of None \<Rightarrow> False | Some first_op \<Rightarrow> first_op \<le> equals_pos)"
    by (simp split: option.splits)
  from found first no_op valid nm show ?thesis
    unfolding check_assignment_def Let_def
    by (simp only: option.case if_False if_True simp_thms) simp
qed


lemma main_line_no_command:
  assumes "start \<noteq> []" and "\<not> c_isspace (hd start)" and "fst (process_command st start) = 0"
  shows "main_line sd st start =
     (case check_assignment start of
        NotAssignment \<Rightarrow>
          (Expression (fst (evaluate_expression sd st start)), snd (evaluate_expression sd st start))
      | AssignTo var_name expr_start \<Rightarrow>
          (Assignment var_name (fst (handle_assignment sd st var_name expr_start)),
           snd (handle_assignment sd st var_name expr_start))
      | refused \<Rightarrow> (AssignmentRefused refused, st))"
proof -
  from assms(1,2) have start: "dropWhile c_isspace start = start"
    by (cases start) simp_all
  from assms(3) no_command_no_change [OF assms(3)]
  have command: "process_command st start = (0, st)"
    by (cases "process_command st start") simp
  show ?thesis
    by (simp add: main_line_def start command assms(1) split: prod.splits assignment_check.splits)
qed

lemma first_index_found:
  "first_index P xs = Some i \<Longrightarrow> i < length xs \<and> P (xs ! i) \<and> take i xs = takeWhile (\<lambda>x. \<not> P x) xs"
  by (induction xs arbitrary: i) (auto split: if_splits)

lemma trim_right_parts:
  "\<exists>spaces. xs = rev (dropWhile P (rev xs)) @ spaces \<and> list_all P spaces"
proof (intro exI conjI)
  show "xs = rev (dropWhile P (rev xs)) @ rev (takeWhile P (rev xs))"
    using takeWhile_dropWhile_id [of P "rev xs"]
    by (metis rev_append rev_rev_ident)
  show "list_all P (rev (takeWhile P (rev xs)))"
    by (auto simp: list_all_iff dest: set_takeWhileD)
qed

lemma trim_right_append:
  "rev (dropWhile P (rev (xs @ ys))) =
   (if list_all P ys then rev (dropWhile P (rev xs)) else xs @ rev (dropWhile P (rev ys)))"
  by (simp add: dropWhile_append list_all_iff)

lemma keyword_prefix_not_name:
  assumes prefix: "take (Suc (length word)) start = word @ '' ''"
    and no_equals: "CHR ''='' \<notin> set word"
    and ends: "word \<noteq> []" "\<not> c_isspace (last word)"
    and found: "strchr start CHR ''='' = Some equals_pos"
    and valid: "valid_name (assignment_name start)"
  shows "assignment_name start = word"
proof -
  from prefix have start: "start = (word @ '' '') @ drop (Suc (length word)) start"
    by (metis append_take_drop_id)
  from found have at: "equals_pos < length start" "start ! equals_pos = CHR ''=''"
    and before: "take equals_pos start = takeWhile (\<lambda>x. x \<noteq> CHR ''='') start"
    using first_index_found [of "\<lambda>x. x = CHR ''=''" start equals_pos]
    by (simp_all add: strchr_def)
  have "length word < equals_pos"
  proof (rule ccontr)
    assume "\<not> length word < equals_pos"
    then have "equals_pos < Suc (length word)" by simp
    then have "start ! equals_pos = (take (Suc (length word)) start) ! equals_pos"
      by simp
    also have "\<dots> \<in> set (word @ '' '')"
      using \<open>equals_pos < Suc (length word)\<close> prefix
      by (metis length_append_singleton nth_mem)
    finally show False
      using at(2) no_equals by simp
  qed
  then obtain u where u: "take equals_pos start = (word @ '' '') @ u"
    using start
    by (metis Suc_leI append_eq_conv_conj length_append_singleton take_add le_Suc_ex prefix)
  show ?thesis
  proof (cases "list_all c_isspace u")
    case True
    from ends have "dropWhile c_isspace (rev word) = rev word"
      by (cases "rev word") (simp_all add: last_rev [symmetric] del: last_rev)
    then have "dropWhile c_isspace (CHR '' '' # rev word) = rev word"
      by (simp add: c_isspace_def)
    moreover from True
    have "dropWhile c_isspace (rev u @ CHR '' '' # rev word) =
          dropWhile c_isspace (CHR '' '' # rev word)"
      by (intro dropWhile_append2) (simp add: list_all_iff)
    ultimately have "rev (dropWhile c_isspace (rev ((word @ '' '') @ u))) = word"
      by simp
    with u found show ?thesis
      by (simp only: assignment_name_def option.case)
  next
    case False
    then have "rev (dropWhile c_isspace (rev ((word @ '' '') @ u))) =
               (word @ '' '') @ rev (dropWhile c_isspace (rev u))"
      by (simp only: trim_right_append if_False)
    with u found
    have nm: "assignment_name start = (word @ '' '') @ rev (dropWhile c_isspace (rev u))"
      by (simp only: assignment_name_def option.case)
    have "\<not> ident_char CHR '' ''"
      by (simp add: char_class_defs)
    moreover from valid nm have "list_all ident_char (tl ((word @ '' '') @ rev (dropWhile c_isspace (rev u))))"
      by (simp add: valid_name_def)
    moreover from valid nm have "ident_start (hd ((word @ '' '') @ rev (dropWhile c_isspace (rev u))))"
      by (simp add: valid_name_def)
    ultimately show ?thesis
      by (cases word) (auto simp: ident_start_def c_isalpha_def)
  qed
qed


lemma assignment_line_no_command:
  assumes nonempty: "start \<noteq> []" and leading: "\<not> c_isspace (hd start)"
    and bounded: "length start < NMRI_MAX_INPUT"
    and found: "strchr start CHR ''='' = Some equals_pos"
    and valid: "valid_name (assignment_name start)"
    and other: "assignment_name start \<noteq> ''store''" "assignment_name start \<noteq> ''log''"
  shows "process_command st start = (0, st)"
proof -
  define trimmed where "trimmed = rev (dropWhile c_isspace (rev start))"
  from nonempty leading have "dropWhile c_isspace start = start"
    by (cases start) simp_all
  with bounded have trimmed: "trim start = trimmed"
    by (simp add: trim_def NMRI_MAX_INPUT_def trimmed_def)
  obtain spaces where parts: "start = trimmed @ spaces" and spaces: "list_all c_isspace spaces"
    using trim_right_parts [of start c_isspace] unfolding trimmed_def by blast
  from found have "equals_pos < length start" "start ! equals_pos = CHR ''=''"
    using first_index_found [of "\<lambda>x. x = CHR ''=''" start equals_pos]
    by (simp_all add: strchr_def)
  then have "CHR ''='' \<in> set start"
    using nth_mem [of equals_pos start] by simp
  moreover from arg_cong [OF parts, of set] have "set start = set trimmed \<union> set spaces"
    by simp
  ultimately have "CHR ''='' \<in> set trimmed \<or> CHR ''='' \<in> set spaces"
    by simp
  moreover have "\<not> c_isspace CHR ''=''"
    by (simp add: c_isspace_def)
  with spaces have "CHR ''='' \<notin> set spaces"
    by (auto simp: list_all_iff)
  ultimately have equals: "CHR ''='' \<in> set trimmed"
    by simp
  then have verbs:
    "trimmed \<noteq> ''help''" "trimmed \<noteq> ''exit''" "trimmed \<noteq> ''quit''"
    "trimmed \<noteq> ''clear''" "trimmed \<noteq> ''cls''" "trimmed \<noteq> ''history''"
    "trimmed \<noteq> ''variables''" "trimmed \<noteq> ''vars''" "trimmed \<noteq> ''memory''"
    "trimmed \<noteq> ''mem''" "trimmed \<noteq> ''m+''" "trimmed \<noteq> ''m-''"
    "trimmed \<noteq> ''mr''" "trimmed \<noteq> ''mc''"
    by auto
  have whole: "take n start = take n trimmed" if "length (take n trimmed) = n" for n
  proof -
    from that have "n \<le> length trimmed" by simp
    then have "take n (trimmed @ spaces) = take n trimmed" by simp
    with parts show ?thesis by simp
  qed
  have store: "take 6 trimmed \<noteq> ''store ''"
  proof
    assume prefix: "take 6 trimmed = ''store ''"
    then have "length (take 6 trimmed) = 6"
      by simp
    from whole [OF this] prefix have "take 6 start = ''store ''"
      by simp
    then have "take (Suc (length ''store'')) start = ''store'' @ '' ''"
      by (simp add: eval_nat_numeral)
    from keyword_prefix_not_name [OF this _ _ _ found valid]
    have "assignment_name start = ''store''"
      by (simp add: c_isspace_def)
    with other show False by simp
  qed
  have log: "take 4 trimmed \<noteq> ''log ''"
  proof
    assume prefix: "take 4 trimmed = ''log ''"
    then have "length (take 4 trimmed) = 4"
      by simp
    from whole [OF this] prefix have "take 4 start = ''log ''"
      by simp
    then have "take (Suc (length ''log'')) start = ''log'' @ '' ''"
      by (simp add: eval_nat_numeral)
    from keyword_prefix_not_name [OF this _ _ _ found valid]
    have "assignment_name start = ''log''"
      by (simp add: c_isspace_def)
    with other show False by simp
  qed
  from verbs store log show ?thesis
    by (simp add: process_command_def trimmed)
qed


lemma assignment_only_from_check:
  "is_assignment (fst (main_line sd st input)) \<Longrightarrow>
   \<exists>var_name expr_start. check_assignment (dropWhile c_isspace input) = AssignTo var_name expr_start"
  by (cases "check_assignment (dropWhile c_isspace input)")
    (auto simp: main_line_def Let_def is_assignment_def split: prod.splits if_splits)

lemma not_a_verb:
  assumes "nm \<in> set reserved_words \<or> nm \<notin> set spec_reserved_names"
  shows "nm \<noteq> ''store'' \<and> nm \<noteq> ''log''"
  using assms
  by (auto simp: reserved_words_def spec_reserved_names_def function_names_def function_map_def
        command_names_def)

text \<open>
  C8, as the source has it. Take a line as \<open>main\<close> reads it, shorter than
  \<open>NMRI_MAX_INPUT\<close> and without leading whitespace, and let its name be the text before
  the first \<open>=\<close> without trailing whitespace. If the name is one of \<open>help\<close>, \<open>exit\<close>,
  \<open>pi\<close>, \<open>e\<close>, \<open>sin\<close>, or is no name of a function, a constant or a command at all,
  then the loop of \<open>main\<close> passes the line to \<open>handle_assignment\<close> exactly when \<open>=\<close>
  stands strictly before any of \<open>+ - * / ^ %\<close> and not first, and the name is non-empty,
  a valid identifier, shorter than \<open>MAX_IDENTIFIER_LEN\<close> and none of those five; and a
  line that assigns to one of the five is refused as an assignment to a reserved name,
  the state unchanged.
\<close>

theorem assignment_detection:
  "start \<noteq> [] \<and> \<not> c_isspace (hd start) \<and> length start < NMRI_MAX_INPUT
   \<and> (assignment_name start \<in> set reserved_words
        \<or> assignment_name start \<notin> set spec_reserved_names)
   \<longrightarrow> is_assignment (fst (main_line sd st start)) =
         (equals_before_operators start \<and> assignment_name start \<noteq> []
          \<and> valid_name (assignment_name start)
          \<and> length (assignment_name start) < MAX_IDENTIFIER_LEN
          \<and> assignment_name start \<notin> set reserved_words)
       \<and> (equals_before_operators start \<and> assignment_name start \<in> set reserved_words
           \<longrightarrow> main_line sd st start =
                 (AssignmentRefused (ReservedName (assignment_name start)), st))"
proof (intro impI, elim conjE)
  assume line: "start \<noteq> []" "\<not> c_isspace (hd start)" "length start < NMRI_MAX_INPUT"
    and name: "assignment_name start \<in> set reserved_words
               \<or> assignment_name start \<notin> set spec_reserved_names"
  from line(1,2) have start: "dropWhile c_isspace start = start"
    by (cases start) simp_all
  from not_a_verb [OF name]
  have other: "assignment_name start \<noteq> ''store''" "assignment_name start \<noteq> ''log''"
    by simp_all
  have no_command: "fst (process_command st start) = 0"
    if "equals_before_operators start" "valid_name (assignment_name start)"
  proof -
    from that(1) obtain equals_pos where "strchr start CHR ''='' = Some equals_pos"
      by (auto simp: equals_before_operators_def split: option.splits)
    from assignment_line_no_command [OF line this that(2) other] show ?thesis
      by simp
  qed
  have detected:
    "is_assignment (fst (main_line sd st start)) =
       (equals_before_operators start \<and> assignment_name start \<noteq> []
        \<and> valid_name (assignment_name start)
        \<and> length (assignment_name start) < MAX_IDENTIFIER_LEN
        \<and> assignment_name start \<notin> set reserved_words)"
  proof
    assume "is_assignment (fst (main_line sd st start))"
    from assignment_only_from_check [OF this] start
    obtain var_name expr_start where "check_assignment start = AssignTo var_name expr_start"
      by auto
    then show "equals_before_operators start \<and> assignment_name start \<noteq> []
        \<and> valid_name (assignment_name start)
        \<and> length (assignment_name start) < MAX_IDENTIFIER_LEN
        \<and> assignment_name start \<notin> set reserved_words"
      unfolding check_assignment_target by blast
  next
    assume conditions: "equals_before_operators start \<and> assignment_name start \<noteq> []
        \<and> valid_name (assignment_name start)
        \<and> length (assignment_name start) < MAX_IDENTIFIER_LEN
        \<and> assignment_name start \<notin> set reserved_words"
    then obtain equals_pos where "strchr start CHR ''='' = Some equals_pos"
      by (auto simp: equals_before_operators_def split: option.splits)
    with conditions
    have "check_assignment start = AssignTo (assignment_name start) (drop (Suc equals_pos) start)"
      unfolding check_assignment_target by blast
    moreover from conditions no_command have "fst (process_command st start) = 0"
      by blast
    ultimately show "is_assignment (fst (main_line sd st start))"
      using main_line_no_command [OF line(1,2), of st sd]
      by (simp add: is_assignment_def)
  qed
  have refused:
    "main_line sd st start = (AssignmentRefused (ReservedName (assignment_name start)), st)"
    if "equals_before_operators start" "assignment_name start \<in> set reserved_words"
  proof -
    from reserved_words_valid [OF that(2)] have "valid_name (assignment_name start)"
      by simp
    from no_command [OF that(1) this] main_line_no_command [OF line(1,2), of st sd]
      check_assignment_reserved [OF that]
    show ?thesis by simp
  qed
  from detected refused show
    "is_assignment (fst (main_line sd st start)) =
       (equals_before_operators start \<and> assignment_name start \<noteq> []
        \<and> valid_name (assignment_name start)
        \<and> length (assignment_name start) < MAX_IDENTIFIER_LEN
        \<and> assignment_name start \<notin> set reserved_words)
     \<and> (equals_before_operators start \<and> assignment_name start \<in> set reserved_words
         \<longrightarrow> main_line sd st start =
               (AssignmentRefused (ReservedName (assignment_name start)), st))"
    by blast
qed

lemmas line_defs =
  main_line_def process_command_def trim_def check_assignment_def strchr_def strpbrk_def
  valid_name_def reserved_words_def equals_before_operators_def assignment_name_def
  spec_assignment_line_def spec_reserved_names_def function_names_def constant_names_def
  command_names_def is_assignment_def

theorem assignment_detection_witness:
  "''x = 5 * 2'' \<noteq> [] \<and> \<not> c_isspace (hd ''x = 5 * 2'')
   \<and> length ''x = 5 * 2'' < NMRI_MAX_INPUT
   \<and> assignment_name ''x = 5 * 2'' = ''x''
   \<and> ''x'' \<notin> set spec_reserved_names
   \<and> equals_before_operators ''x = 5 * 2''
   \<and> valid_name ''x''
   \<and> is_assignment (fst (main_line strtod_decimal initial_state ''x = 5 * 2''))
   \<and> length ''pi = 3'' < NMRI_MAX_INPUT
   \<and> assignment_name ''pi = 3'' = ''pi''
   \<and> ''pi'' \<in> set reserved_words
   \<and> equals_before_operators ''pi = 3''
   \<and> main_line strtod_decimal initial_state ''pi = 3'' =
       (AssignmentRefused (ReservedName ''pi''), initial_state)"
proof -
  have first:
    "''x = 5 * 2'' \<noteq> [] \<and> \<not> c_isspace (hd ''x = 5 * 2'')
     \<and> length ''x = 5 * 2'' < NMRI_MAX_INPUT
     \<and> assignment_name ''x = 5 * 2'' = ''x''
     \<and> ''x'' \<notin> set spec_reserved_names
     \<and> equals_before_operators ''x = 5 * 2''
     \<and> valid_name ''x''"
    by (simp add: line_defs char_class_defs limit_defs function_map_def)
  have second:
    "''pi = 3'' \<noteq> [] \<and> \<not> c_isspace (hd ''pi = 3'')
     \<and> length ''pi = 3'' < NMRI_MAX_INPUT
     \<and> assignment_name ''pi = 3'' = ''pi''
     \<and> ''pi'' \<in> set reserved_words
     \<and> equals_before_operators ''pi = 3''"
    by (simp add: line_defs char_class_defs limit_defs function_map_def)
  from first second
    assignment_detection
      [where start = "''x = 5 * 2''" and st = initial_state and sd = strtod_decimal]
    assignment_detection
      [where start = "''pi = 3''" and st = initial_state and sd = strtod_decimal]
  show ?thesis
    by (simp add: reserved_words_def limit_defs)
qed

text \<open>
  The test of the specification has no bound on the length of the name: a line that
  assigns to a valid, unreserved identifier of 32 characters passes it, and \<open>main\<close>
  refuses the line for the length of its name.
\<close>

theorem long_name_counterexample:
  "spec_assignment_line ''aaaaaaaaaaaaaaaaaaaaaaaaaaaaaaaa = 1''
   \<and> length ''aaaaaaaaaaaaaaaaaaaaaaaaaaaaaaaa'' = 32
   \<and> main_line strtod_decimal initial_state ''aaaaaaaaaaaaaaaaaaaaaaaaaaaaaaaa = 1'' =
       (AssignmentRefused InvalidNameLength, initial_state)
   \<and> \<not> is_assignment
         (fst (main_line strtod_decimal initial_state ''aaaaaaaaaaaaaaaaaaaaaaaaaaaaaaaa = 1''))"
  by (simp add: line_defs char_class_defs limit_defs function_map_def)

text \<open>
  The names of the other functions, constants and commands are not in the list of
  \<open>main\<close>, whose comment asks for more reserved words to be added: assignments to
  \<open>cos\<close>, \<open>ans\<close> and \<open>quit\<close> are performed.
\<close>

lemma function_name_assigned:
  "fst (main_line strtod_decimal initial_state ''cos = 5'') = Assignment ''cos'' (Inr (Fin 5))
   \<and> ''cos'' \<in> set spec_reserved_names
   \<and> fst (main_line strtod_decimal initial_state ''ans = 5'') = Assignment ''ans'' (Inr (Fin 5))
   \<and> ''ans'' \<in> set spec_reserved_names
   \<and> fst (main_line strtod_decimal initial_state ''quit = 5'') = Assignment ''quit'' (Inr (Fin 5))
   \<and> ''quit'' \<in> set spec_reserved_names"
  by (simp add: line_defs char_class_defs limit_defs tokenize_defs evaluate_defs
        handle_assignment_def set_variable_def find_variable_def initial_state_def)

end
